theory Spec2Isabelle
  imports Main "HOL-Library.Sublist"
begin

section \<open>Proxify: routing of \<open>name.localhost\<close> hosts to running containers (index.js)\<close>

text \<open>
  The program keeps one module-level variable \<open>containerMap\<close> (a JavaScript \<open>Map\<close>
  from container name to \<open>{name, ip, port}\<close>), rebuilds it in \<open>updateRoutes\<close> from what
  the Docker daemon reports, consults it in the proxy middleware, and re-runs
  \<open>updateRoutes\<close> on container lifecycle events.

  JavaScript values are modelled as follows.
  \<^item> A string is a \<open>string\<close>; a value that may be \<open>undefined\<close> or \<open>null\<close> is an
    \<open>option\<close> (\<open>None\<close>).  A string is truthy when it is present and non-empty.
  \<^item> A \<open>Map\<close> is an association list in insertion order without repeated keys
    (\<open>Map_set\<close> keeps the position of a key that is already there).
  \<^item> A plain object that is only enumerated with \<open>Object.keys\<close> is the list of its
    properties in the order \<open>Object.keys\<close> yields them.
  \<^item> A thrown exception or rejected promise is the \<open>Inl\<close> of a sum.
  \<^item> \<open>console\<close> output is a list of entries appended to the state (the emoji
    decoration of the messages is left out).
\<close>

subsection \<open>JavaScript string and Map primitives\<close>

text \<open>\<open>!v\<close> is false exactly for a present, non-empty string.\<close>

definition truthy :: "string option \<Rightarrow> bool" where
  "truthy v = (case v of None \<Rightarrow> False | Some s \<Rightarrow> s \<noteq> [])"

text \<open>\<open>s.split(sep)[0]\<close> for a one-character separator: the text before its first
  occurrence, the whole string when it does not occur.\<close>

definition split_first :: "char \<Rightarrow> string \<Rightarrow> string" where
  "split_first sep s = takeWhile (\<lambda>c. c \<noteq> sep) s"

text \<open>\<open>s.replace(pat, rep)\<close> with a string pattern: only the first occurrence of
  \<open>pat\<close> is replaced.\<close>

fun replace_first :: "string \<Rightarrow> string \<Rightarrow> string \<Rightarrow> string" where
  "replace_first pat rep [] = (if pat = [] then rep else [])"
| "replace_first pat rep (c # cs) =
     (if prefix pat (c # cs) then rep @ drop (length pat) (c # cs)
      else c # replace_first pat rep cs)"

record endpoint =
  name :: string
  ip :: string
  port :: string

type_synonym table = "(string \<times> endpoint) list"

fun Map_set :: "string \<Rightarrow> endpoint \<Rightarrow> table \<Rightarrow> table" where
  "Map_set k v [] = [(k, v)]"
| "Map_set k v ((k', v') # m) =
     (if k = k' then (k, v) # m else (k', v') # Map_set k v m)"

definition Map_get :: "table \<Rightarrow> string \<Rightarrow> endpoint option" where
  "Map_get m k = map_of m k"

definition Map_keys :: "table \<Rightarrow> string list" where
  "Map_keys m = map fst m"

definition Map_values :: "table \<Rightarrow> endpoint list" where
  "Map_values m = map snd m"

subsection \<open>What the Docker daemon reports\<close>

datatype error = DockerError string | TypeError string

fun message :: "error \<Rightarrow> string" where
  "message (DockerError m) = m"
| "message (TypeError m) = m"

text \<open>An element of the \<open>listContainers\<close> answer: the fields the program reads.\<close>

record container_info =
  Id_c :: string
  Names :: "string list"

record network =
  net_IPAddress :: "string option"

text \<open>The \<open>inspect\<close> answer: \<open>NetworkSettings.IPAddress\<close>,
  \<open>NetworkSettings.Networks\<close> (its properties in key order, \<open>None\<close> when the field is
  null or absent) and the keys of \<open>Config.ExposedPorts\<close> (\<open>None\<close> when null or absent).\<close>

record container_details =
  IPAddress :: "string option"
  Networks :: "(string \<times> network) list option"
  ExposedPorts :: "string list option"

record docker =
  ping :: "error + unit"
  listContainers :: "error + container_info list"
  inspect :: "string \<Rightarrow> error + container_details"

subsection \<open>Program state\<close>

datatype log_entry =
    Updating
  | RouteLogged string string string
  | NoIpWarned string
  | InspectFailed string string
  | TotalRoutes nat
  | UpdateFailed string
  | ContainerEvent string
  | ParseFailed
  | StreamFailed
  | ListenerStarted
  | StreamEnded
  | InitFailed string

text \<open>A call of the async function \<open>updateRoutes\<close> that is suspended at one of its two
  \<open>await\<close>s: at \<open>docker.listContainers\<close>, or at the \<open>inspect\<close> of one container, holding
  that container's name and id, the containers still to visit and the local
  \<open>newContainerMap\<close>.\<close>

datatype pass =
    AwaitList
  | AwaitInspect string string "container_info list" table

record system =
  containerMap :: table
  console :: "log_entry list"
  passes :: "pass list"
  eventStream :: "nat option"
  listening :: "nat list"
  subscribing :: nat
  timers :: "nat list"

text \<open>\<open>passes\<close> are the suspended \<open>updateRoutes\<close> calls; \<open>listening\<close> the streams that
  carry the program's handlers; \<open>subscribing\<close> the number of \<open>docker.getEvents\<close> calls
  whose callback has not run yet; \<open>timers\<close> the delays (in milliseconds) of the pending
  \<open>setTimeout(setupDockerEventListener, delay)\<close> calls.\<close>

definition say :: "log_entry \<Rightarrow> system \<Rightarrow> system" where
  "say e s = s\<lparr>console := console s @ [e]\<rparr>"

subsection \<open>\<open>updateRoutes\<close> (lines 15-61)\<close>

text \<open>Lines 30-39: the address is \<open>NetworkSettings.IPAddress\<close>; when that is falsy and
  \<open>Networks\<close> is truthy, the networks are visited in key order and the first truthy
  address is taken.\<close>

fun scan_networks :: "(string \<times> network) list \<Rightarrow> string option \<Rightarrow> string option" where
  "scan_networks [] ip0 = ip0"
| "scan_networks ((networkName, n) # rest) ip0 =
     (if truthy (net_IPAddress n) then net_IPAddress n else scan_networks rest ip0)"

definition pick_ip :: "container_details \<Rightarrow> string option" where
  "pick_ip d =
     (let ip0 = IPAddress d in
      if \<not> truthy ip0 \<and> Networks d \<noteq> None then scan_networks (the (Networks d)) ip0
      else ip0)"

text \<open>Lines 46-47: \<open>Object.keys(exposedPorts)[0]?.split("/")[0] || "80"\<close>.\<close>

definition pick_port :: "container_details \<Rightarrow> string" where
  "pick_port d =
     (let exposedPorts = (case ExposedPorts d of None \<Rightarrow> [] | Some ks \<Rightarrow> ks) in
      case exposedPorts of
        [] \<Rightarrow> ''80''
      | k # _ \<Rightarrow> (let p = split_first CHR ''/'' k in if p = [] then ''80'' else p))"

text \<open>Lines 25-53, the body of the inner \<open>try\<close> for the container called \<open>nm\<close>, given
  the outcome of its \<open>inspect\<close>: the new local map and what is printed.\<close>

definition resolve_into :: "string \<Rightarrow> error + container_details \<Rightarrow> table \<Rightarrow> table \<times> log_entry" where
  "resolve_into nm answer new =
     (case answer of
        Inl inspectErr \<Rightarrow> (new, InspectFailed nm (message inspectErr))
      | Inr d \<Rightarrow>
          (let ip1 = pick_ip d in
           if \<not> truthy ip1 then (new, NoIpWarned nm)
           else (let p = pick_port d in
                 (Map_set nm \<lparr>name = nm, ip = the ip1, port = p\<rparr> new,
                  RouteLogged nm (the ip1) p))))"

text \<open>Line 23: \<open>containerInfo.Names[0].replace("/", "")\<close>; with no first name the call
  on \<open>undefined\<close> throws a TypeError, outside the inner \<open>try\<close>.\<close>

definition container_name :: "container_info \<Rightarrow> error + string" where
  "container_name c =
     (case Names c of
        [] \<Rightarrow> Inl (TypeError ''Cannot read properties of undefined'')
      | n # _ \<Rightarrow> Inr (replace_first ''/'' [] n))"

text \<open>Lines 22-54, the \<open>for\<close> loop run without interruption against one daemon state:
  the exception that leaves the loop, if any, the local map and the output.\<close>

fun route_loop ::
  "docker \<Rightarrow> container_info list \<Rightarrow> table \<Rightarrow> log_entry list \<Rightarrow> error option \<times> table \<times> log_entry list" where
  "route_loop dk [] new out = (None, new, out)"
| "route_loop dk (c # cs) new out =
     (case container_name c of
        Inl e \<Rightarrow> (Some e, new, out)
      | Inr nm \<Rightarrow>
          (case resolve_into nm (inspect dk (Id_c c)) new of
             (new', l) \<Rightarrow> route_loop dk cs new' (out @ [l])))"

definition updateRoutes :: "docker \<Rightarrow> system \<Rightarrow> system" where
  "updateRoutes dk s =
     (let s1 = say Updating s in
      case listContainers dk of
        Inl err \<Rightarrow> say (UpdateFailed (message err)) s1
      | Inr containers \<Rightarrow>
          (case route_loop dk containers [] [] of
             (Some err, new, out) \<Rightarrow>
               say (UpdateFailed (message err)) (s1\<lparr>console := console s1 @ out\<rparr>)
           | (None, new, out) \<Rightarrow>
               say (TotalRoutes (length new))
                 (s1\<lparr>console := console s1 @ out, containerMap := new\<rparr>)))"

subsection \<open>\<open>updateRoutes\<close> as a suspended call\<close>

text \<open>JavaScript runs one handler at a time; an async function gives control back
  only at an \<open>await\<close>.  \<open>resume dk p s\<close> runs the suspended call \<open>p\<close> from its \<open>await\<close>,
  answered by the daemon state \<open>dk\<close>, up to its next \<open>await\<close> (\<open>Some\<close> of the new
  suspension) or to its end (\<open>None\<close>).  \<open>continue_loop\<close> is the loop head at line 22
  with the containers still to visit; line 56 is reached when none is left.\<close>

definition continue_loop :: "container_info list \<Rightarrow> table \<Rightarrow> system \<Rightarrow> pass option \<times> system" where
  "continue_loop cs new s =
     (case cs of
        [] \<Rightarrow> (None, say (TotalRoutes (length new)) (s\<lparr>containerMap := new\<rparr>))
      | c # rest \<Rightarrow>
          (case container_name c of
             Inl err \<Rightarrow> (None, say (UpdateFailed (message err)) s)
           | Inr nm \<Rightarrow> (Some (AwaitInspect nm (Id_c c) rest new), s)))"

definition resume :: "docker \<Rightarrow> pass \<Rightarrow> system \<Rightarrow> pass option \<times> system" where
  "resume dk p s =
     (case p of
        AwaitList \<Rightarrow>
          (case listContainers dk of
             Inl err \<Rightarrow> (None, say (UpdateFailed (message err)) s)
           | Inr containers \<Rightarrow> continue_loop containers [] s)
      | AwaitInspect nm cid rest new \<Rightarrow>
          (case resolve_into nm (inspect dk cid) new of
             (new', l) \<Rightarrow> continue_loop rest new' (say l s)))"

text \<open>Calling \<open>updateRoutes()\<close>: line 16 runs, then the call is suspended at line 19.\<close>

definition call_updateRoutes :: "system \<Rightarrow> system" where
  "call_updateRoutes s = (say Updating s)\<lparr>passes := passes s @ [AwaitList]\<rparr>"

text \<open>The \<open>i\<close>-th suspended call is resumed while the daemon is in state \<open>dk\<close>.\<close>

definition resume_pass :: "nat \<Rightarrow> docker \<Rightarrow> system \<Rightarrow> system" where
  "resume_pass i dk s =
     (if i < length (passes s) then
        (case resume dk (passes s ! i) s of
           (None, s') \<Rightarrow> s'\<lparr>passes := take i (passes s) @ drop (Suc i) (passes s)\<rparr>
         | (Some p', s') \<Rightarrow> s'\<lparr>passes := (passes s)[i := p']\<rparr>)
      else s)"

text \<open>One call resumed again and again, once per element of a list of daemon states:
  the program states at its successive suspensions, ending with the state at its end.\<close>

fun pass_trace :: "docker list \<Rightarrow> pass \<Rightarrow> system \<Rightarrow> system list" where
  "pass_trace [] p s = []"
| "pass_trace (dk # dks) p s =
     (case resume dk p s of
        (None, s') \<Rightarrow> [s']
      | (Some p', s') \<Rightarrow> s' # pass_trace dks p' s')"

subsection \<open>Management endpoints (lines 64-79)\<close>

definition health_activeRoutes :: "system \<Rightarrow> endpoint list" where
  "health_activeRoutes s = Map_values (containerMap s)"

definition routes_listing :: "system \<Rightarrow> (string \<times> string) list" where
  "routes_listing s =
     map (\<lambda>c. (name c @ ''.localhost'', ''http://'' @ ip c @ '':'' @ port c))
       (Map_values (containerMap s))"

subsection \<open>The proxy middleware and the error handler (lines 81-132)\<close>

text \<open>Console output of the request path is not modelled.  JSON bodies are the values
  of their fields in the order written.\<close>

datatype body =
    ErrorBody string
  | NoRouteBody string "string list"
  | ProxyErrorBody string string string

datatype routing = Reply nat body | Forward string string

text \<open>Line 82: \<open>req.headers.host?.split(":")[0]\<close>.\<close>

definition request_host :: "string option \<Rightarrow> string option" where
  "request_host hostHeader = map_option (split_first CHR '':'') hostHeader"

text \<open>Line 87: \<open>host.replace(".localhost", "")\<close>.\<close>

definition containerName_of :: "string \<Rightarrow> string" where
  "containerName_of host = replace_first ''.localhost'' [] host"

text \<open>Lines 82-98: up to the choice of the target.\<close>

definition route_request :: "table \<Rightarrow> string option \<Rightarrow> routing" where
  "route_request m hostHeader =
     (let host = request_host hostHeader in
      if \<not> truthy host then Reply 400 (ErrorBody ''No host header provided'')
      else
        (let h = the host; containerName = containerName_of h in
         case Map_get m containerName of
           None \<Rightarrow>
             Reply 502
               (NoRouteBody (''No container mapped for hostname: '' @ h)
                  (map (\<lambda>n. n @ ''.localhost'') (Map_keys m)))
         | Some containerInfo \<Rightarrow>
             Forward h (''http://'' @ ip containerInfo @ '':'' @ port containerInfo)))"

text \<open>What the http-proxy-middleware instance does with a request for a target is not
  part of this program; it is a parameter: the upstream answers, or the \<open>onError\<close>
  callback is called with an error message while the response headers have or have not
  been sent, or an exception reaches Express.\<close>

datatype proxied = Upstream nat string | ProxyError string bool | Raised error

datatype served = Sent nat body | Relayed nat string | Unfinished

text \<open>Lines 126-129.\<close>

definition errorHandler :: "error \<Rightarrow> served" where
  "errorHandler err = Sent 500 (ErrorBody ''Internal server error'')"

text \<open>One request through \<open>proxyApp\<close>: the middleware of line 81, the \<open>onError\<close> callback
  of lines 107-116, and the error handler registered at line 132 for whatever is
  thrown.\<close>

definition proxyApp_request :: "table \<Rightarrow> string option \<Rightarrow> (string \<Rightarrow> proxied) \<Rightarrow> served" where
  "proxyApp_request m hostHeader px =
     (case route_request m hostHeader of
        Reply st b \<Rightarrow> Sent st b
      | Forward h target \<Rightarrow>
          (case px target of
             Upstream st b \<Rightarrow> Relayed st b
           | ProxyError msg headersSent \<Rightarrow>
               if \<not> headersSent then Sent 502 (ProxyErrorBody ''Proxy error'' target msg)
               else Unfinished
           | Raised err \<Rightarrow> errorHandler err))"

subsection \<open>The Docker event listener (lines 134-169) and start-up (lines 183-213)\<close>

text \<open>A chunk of the event stream after \<open>JSON.parse\<close>: a parse failure, or the \<open>Type\<close> and
  \<open>Action\<close> of the event.\<close>

datatype chunk = Malformed | Event string string

definition setupDockerEventListener :: "system \<Rightarrow> system" where
  "setupDockerEventListener s = s\<lparr>subscribing := Suc (subscribing s)\<rparr>"

text \<open>The callback of \<open>docker.getEvents\<close> (lines 136-168), with an error or a stream.\<close>

definition getEvents_callback :: "error + nat \<Rightarrow> system \<Rightarrow> system" where
  "getEvents_callback r s =
     (let s0 = s\<lparr>subscribing := subscribing s - 1\<rparr> in
      case r of
        Inl err \<Rightarrow> (say StreamFailed s0)\<lparr>timers := timers s0 @ [5000]\<rparr>
      | Inr stream \<Rightarrow>
          (say ListenerStarted (s0\<lparr>eventStream := Some stream\<rparr>))
            \<lparr>listening := listening s0 @ [stream]\<rparr>)"

text \<open>The handlers of a stream's \<open>data\<close>, \<open>error\<close> and \<open>end\<close> events.\<close>

definition on_data :: "chunk \<Rightarrow> system \<Rightarrow> system" where
  "on_data ch s =
     (case ch of
        Malformed \<Rightarrow> say ParseFailed s
      | Event ty act \<Rightarrow>
          if ty = ''container'' \<and> (act = ''start'' \<or> act = ''stop'' \<or> act = ''die'')
          then call_updateRoutes (say (ContainerEvent act) s)
          else s)"

definition on_error :: "system \<Rightarrow> system" where
  "on_error s = (say StreamFailed s)\<lparr>timers := timers s @ [5000]\<rparr>"

definition on_end :: "system \<Rightarrow> system" where
  "on_end s = (say StreamEnded s)\<lparr>timers := timers s @ [1000]\<rparr>"

text \<open>The \<open>i\<close>-th pending timer expires and runs \<open>setupDockerEventListener\<close>.\<close>

definition timer_fires :: "nat \<Rightarrow> system \<Rightarrow> system" where
  "timer_fires i s =
     (if i < length (timers s)
      then setupDockerEventListener (s\<lparr>timers := take i (timers s) @ drop (Suc i) (timers s)\<rparr>)
      else s)"

datatype process = Exited nat system | Running system

text \<open>\<open>init\<close>: a failed \<open>docker.ping\<close> ends the process with status 1; otherwise the
  first \<open>updateRoutes\<close> runs to its end and the listener is set up.  The two
  \<open>listen\<close> calls are not modelled.\<close>

definition init :: "docker \<Rightarrow> system \<Rightarrow> process" where
  "init dk s =
     (case ping dk of
        Inl err \<Rightarrow> Exited 1 (say (InitFailed (message err)) s)
      | Inr _ \<Rightarrow> Running (setupDockerEventListener (updateRoutes dk s)))"

definition start_state :: system where
  "start_state =
     \<lparr>containerMap = [], console = [], passes = [], eventStream = None,
      listening = [], subscribing = 0, timers = []\<rparr>"

subsection \<open>Notions used to state the properties\<close>

text \<open>The name under which a listed container is entered, when it has a first name.\<close>

definition cname :: "container_info \<Rightarrow> string" where
  "cname c = replace_first ''/'' [] (hd (Names c))"

text \<open>The endpoint obtained for a container from its metadata, \<open>None\<close> when no address
  is found; and the same for a listed container under a daemon state, \<open>None\<close> also when
  the metadata cannot be fetched.\<close>

definition resolve :: "string \<Rightarrow> container_details \<Rightarrow> endpoint option" where
  "resolve nm d =
     (if truthy (pick_ip d) then Some \<lparr>name = nm, ip = the (pick_ip d), port = pick_port d\<rparr>
      else None)"

definition resolved :: "docker \<Rightarrow> container_info \<Rightarrow> endpoint option" where
  "resolved dk c = (case inspect dk (Id_c c) of Inl _ \<Rightarrow> None | Inr d \<Rightarrow> resolve (cname c) d)"

definition entry :: "docker \<Rightarrow> container_info \<Rightarrow> (string \<times> endpoint) option" where
  "entry dk c = map_option (Pair (cname c)) (resolved dk c)"

text \<open>What is printed for a container: for one that fails, the diagnostic.\<close>

definition report :: "docker \<Rightarrow> container_info \<Rightarrow> log_entry" where
  "report dk c = snd (resolve_into (cname c) (inspect dk (Id_c c)) [])"

definition diagnostic :: "docker \<Rightarrow> container_info \<Rightarrow> log_entry" where
  "diagnostic dk c =
     (case inspect dk (Id_c c) of
        Inl e \<Rightarrow> InspectFailed (cname c) (message e)
      | Inr d \<Rightarrow> NoIpWarned (cname c))"

text \<open>The resolution policy in the words of the specification: the primary address
  when it is non-empty, otherwise the first non-empty address of the attached networks
  in order; the text before the protocol suffix of the first declared port, or 80.\<close>

definition first_nonempty :: "string option list \<Rightarrow> string option" where
  "first_nonempty as = (case filter truthy as of [] \<Rightarrow> None | a # _ \<Rightarrow> a)"

definition policy_address :: "container_details \<Rightarrow> string option" where
  "policy_address d =
     (if truthy (IPAddress d) then IPAddress d
      else first_nonempty
             (map (\<lambda>(networkName, n). net_IPAddress n)
                (case Networks d of None \<Rightarrow> [] | Some ns \<Rightarrow> ns)))"

definition policy_port :: "container_details \<Rightarrow> string" where
  "policy_port d =
     (case (case ExposedPorts d of None \<Rightarrow> [] | Some ks \<Rightarrow> ks) of
        [] \<Rightarrow> ''80''
      | k # _ \<Rightarrow> takeWhile (\<lambda>c. c \<noteq> CHR ''/'') k)"

text \<open>The table that resuming a suspended call assigns to \<open>containerMap\<close>, if it
  reaches line 56 in that resumption: only when no container is left to visit.\<close>

definition installs :: "docker \<Rightarrow> pass \<Rightarrow> table option" where
  "installs dk p =
     (case p of
        AwaitList \<Rightarrow>
          (case listContainers dk of
             Inl _ \<Rightarrow> None
           | Inr cs \<Rightarrow> if cs = [] then Some [] else None)
      | AwaitInspect nm cid rest new \<Rightarrow>
          if rest = [] then Some (fst (resolve_into nm (inspect dk cid) new)) else None)"

text \<open>Lines 56-60 applied to the outcome of the loop.\<close>

definition conclude :: "error option \<times> table \<times> log_entry list \<Rightarrow> system \<Rightarrow> system" where
  "conclude r s =
     (case r of
        (Some err, new, out) \<Rightarrow>
          say (UpdateFailed (message err)) (s\<lparr>console := console s @ out\<rparr>)
      | (None, new, out) \<Rightarrow>
          say (TotalRoutes (length new)) (s\<lparr>console := console s @ out, containerMap := new\<rparr>))"

text \<open>The chunks that pass the test of lines 149-150, and a burst of chunks handled
  one after the other.\<close>

definition lifecycle :: "chunk \<Rightarrow> bool" where
  "lifecycle ch =
     (case ch of
        Malformed \<Rightarrow> False
      | Event ty act \<Rightarrow>
          ty = ''container'' \<and> (act = ''start'' \<or> act = ''stop'' \<or> act = ''die''))"

definition deliver :: "chunk list \<Rightarrow> system \<Rightarrow> system" where
  "deliver chs s = fold on_data chs s"





fun status_of :: "served \<Rightarrow> nat option" where
  "status_of (Sent st b) = Some st"
| "status_of (Relayed st b) = Some st"
| "status_of Unfinished = None"

text \<open>Where a request is forwarded to, if it is.\<close>

fun forwarded_to :: "routing \<Rightarrow> string option" where
  "forwarded_to (Forward h target) = Some target"
| "forwarded_to (Reply st b) = None"

text \<open>The outcome of a request with host \<open>h\<close> when the table is consulted under
  \<open>key\<close>: forwarded to the address of the entry found, or the 502 of lines 92-95.\<close>

definition lookup_outcome :: "table \<Rightarrow> string \<Rightarrow> string \<Rightarrow> routing" where
  "lookup_outcome m h key =
     (case Map_get m key of
        None \<Rightarrow>
          Reply 502
            (NoRouteBody (''No container mapped for hostname: '' @ h)
               (map (\<lambda>n. n @ ''.localhost'') (Map_keys m)))
      | Some e \<Rightarrow> Forward h (''http://'' @ ip e @ '':'' @ port e))"

subsection \<open>Example inputs\<close>

definition nginx_route :: endpoint where
  "nginx_route = \<lparr>name = ''nginx'', ip = ''172.17.0.2'', port = ''80''\<rparr>"

definition nginx_table :: table where
  "nginx_table = [(''nginx'', nginx_route)]"

definition nginx_state :: system where
  "nginx_state = start_state\<lparr>containerMap := nginx_table\<rparr>"

definition failing_docker :: docker where
  "failing_docker =
     \<lparr>ping = Inr (),
      listContainers = Inl (DockerError ''connect ENOENT /var/run/docker.sock''),
      inspect = (\<lambda>cid. Inl (DockerError ''no such container''))\<rparr>"

definition c_web :: container_info where
  "c_web = \<lparr>Id_c = ''id-web'', Names = [''/web'']\<rparr>"

definition c_db :: container_info where
  "c_db = \<lparr>Id_c = ''id-db'', Names = [''/db'']\<rparr>"

definition c_api :: container_info where
  "c_api = \<lparr>Id_c = ''id-api'', Names = [''/api'']\<rparr>"

definition web_details :: container_details where
  "web_details =
     \<lparr>IPAddress = Some ''172.17.0.3'',
      Networks = Some [(''bridge'', \<lparr>net_IPAddress = Some ''172.17.0.3''\<rparr>)],
      ExposedPorts = Some [''3000/tcp'', ''9229/tcp'']\<rparr>"

definition api_details :: container_details where
  "api_details =
     \<lparr>IPAddress = Some [],
      Networks = Some [(''none'', \<lparr>net_IPAddress = Some []\<rparr>),
                       (''appnet'', \<lparr>net_IPAddress = Some ''10.0.0.5''\<rparr>),
                       (''backnet'', \<lparr>net_IPAddress = Some ''10.0.1.5''\<rparr>)],
      ExposedPorts = None\<rparr>"

definition inspect3 :: "string \<Rightarrow> error + container_details" where
  "inspect3 cid =
     (if cid = ''id-web'' then Inr web_details
      else if cid = ''id-api'' then Inr api_details
      else Inl (DockerError ''no such container''))"

definition three_docker :: docker where
  "three_docker =
     \<lparr>ping = Inr (), listContainers = Inr [c_web, c_db, c_api], inspect = inspect3\<rparr>"

definition web_route :: endpoint where
  "web_route = \<lparr>name = ''web'', ip = ''172.17.0.3'', port = ''3000''\<rparr>"

definition api_route :: endpoint where
  "api_route = \<lparr>name = ''api'', ip = ''10.0.0.5'', port = ''80''\<rparr>"

definition dotted_route :: endpoint where
  "dotted_route = \<lparr>name = ''nginx.example.com'', ip = ''172.17.0.9'', port = ''8000''\<rparr>"

definition dotted_table :: table where
  "dotted_table = [(''nginx'', nginx_route), (''nginx.example.com'', dotted_route)]"

definition refused_proxy :: "string \<Rightarrow> proxied" where
  "refused_proxy target = ProxyError ''connect ECONNREFUSED'' False"

definition reset_proxy :: "string \<Rightarrow> proxied" where
  "reset_proxy target = ProxyError ''read ECONNRESET'' True"

definition raising_proxy :: "string \<Rightarrow> proxied" where
  "raising_proxy target = Raised (TypeError ''socket hang up'')"

definition busy_state :: system where
  "busy_state = call_updateRoutes start_state"

definition three_events :: "chunk list" where
  "three_events =
     [Event ''container'' ''start'', Event ''container'' ''die'', Event ''container'' ''stop'']"


section \<open>Properties of \<open>updateRoutes\<close>\<close>

subsection \<open>The loop\<close>

lemma container_name_named: "Names c \<noteq> [] \<Longrightarrow> container_name c = Inr (cname c)"
  by (cases "Names c") (simp_all add: container_name_def cname_def)

lemma resolve_into_resolved:
  "fst (resolve_into (cname c) (inspect dk (Id_c c)) new) =
     (case resolved dk c of None \<Rightarrow> new | Some e \<Rightarrow> Map_set (cname c) e new)"
  by (cases "inspect dk (Id_c c)")
    (simp_all add: resolve_into_def resolved_def resolve_def Let_def)

lemma resolve_into_report:
  "snd (resolve_into (cname c) (inspect dk (Id_c c)) new) = report dk c"
  by (cases "inspect dk (Id_c c)")
    (simp_all add: resolve_into_def report_def Let_def)

lemma report_failed: "resolved dk c = None \<Longrightarrow> report dk c = diagnostic dk c"
  by (cases "inspect dk (Id_c c)")
    (simp_all add: resolve_into_def report_def resolved_def resolve_def diagnostic_def Let_def
      split: if_splits)

lemma route_loop_out:
  "route_loop dk cs new out =
     (case route_loop dk cs new [] of (e, m, out') \<Rightarrow> (e, m, out @ out'))"
proof (induction cs arbitrary: new out)
  case Nil
  show ?case by simp
next
  case (Cons c cs)
  show ?case
  proof (cases "container_name c")
    case (Inl e)
    then show ?thesis by simp
  next
    case (Inr nm)
    obtain new' l where r: "resolve_into nm (inspect dk (Id_c c)) new = (new', l)"
      by (cases "resolve_into nm (inspect dk (Id_c c)) new")
    show ?thesis
      using Inr r Cons.IH [of new' "out @ [l]"] Cons.IH [of new' "[l]"]
      by (simp split: prod.splits)
  qed
qed

lemma route_loop_named:
  "\<forall>c\<in>set cs. Names c \<noteq> [] \<Longrightarrow> fst (route_loop dk cs new out) = None"
proof (induction cs arbitrary: new out)
  case Nil
  show ?case by simp
next
  case (Cons c cs)
  then show ?case
    by (simp add: container_name_named split: prod.splits)
qed

lemma route_loop_reports:
  "\<forall>c\<in>set cs. Names c \<noteq> [] \<Longrightarrow>
   snd (snd (route_loop dk cs new out)) = out @ map (report dk) cs"
proof (induction cs arbitrary: new out)
  case Nil
  show ?case by simp
next
  case (Cons c cs)
  obtain new' l where r: "resolve_into (cname c) (inspect dk (Id_c c)) new = (new', l)"
    by (cases "resolve_into (cname c) (inspect dk (Id_c c)) new")
  have l: "l = report dk c"
    using resolve_into_report [of c dk new] r by simp
  show ?case
    using Cons.prems r l Cons.IH [of new' "out @ [l]"]
    by (simp add: container_name_named)
qed

lemma route_loop_skip:
  assumes "\<forall>c\<in>set ws1. Names c \<noteq> []" and "Names w \<noteq> []" and "resolved dk w = None"
  shows "fst (snd (route_loop dk (ws1 @ w # ws2) new out)) =
         fst (snd (route_loop dk (ws1 @ ws2) new out'))"
  using assms(1)
proof (induction ws1 arbitrary: new out out')
  case Nil
  obtain l where "resolve_into (cname w) (inspect dk (Id_c w)) new = (new, l)"
    using resolve_into_resolved [of w dk new] assms(3)
    by (cases "resolve_into (cname w) (inspect dk (Id_c w)) new") simp
  then have "route_loop dk (w # ws2) new out = route_loop dk ws2 new (out @ [l])"
    using assms(2) by (simp add: container_name_named)
  then show ?case
    by (simp add: route_loop_out [of dk ws2 new "out @ [l]"]
        route_loop_out [of dk ws2 new out'] split: prod.splits)
next
  case (Cons c cs)
  then show ?case
    by (simp add: container_name_named split: prod.splits)
qed

lemma route_loop_inspect:
  "inspect dk' = inspect dk \<Longrightarrow> route_loop dk' cs new out = route_loop dk cs new out"
  by (induction cs arbitrary: new out) (simp_all split: sum.splits prod.splits)

lemma Map_set_fresh: "k \<notin> fst ` set m \<Longrightarrow> Map_set k v m = m @ [(k, v)]"
  by (induction m) auto

lemma route_loop_distinct:
  assumes "\<forall>c\<in>set cs. Names c \<noteq> []" and "distinct (map cname cs)"
    and "fst ` set new \<inter> cname ` set cs = {}"
  shows "fst (snd (route_loop dk cs new out)) = new @ List.map_filter (entry dk) cs"
  using assms
proof (induction cs arbitrary: new out)
  case Nil
  show ?case by (simp add: List.map_filter_simps)
next
  case (Cons c cs)
  obtain new' l where r: "resolve_into (cname c) (inspect dk (Id_c c)) new = (new', l)"
    by (cases "resolve_into (cname c) (inspect dk (Id_c c)) new")
  have new': "new' = (case resolved dk c of None \<Rightarrow> new | Some e \<Rightarrow> new @ [(cname c, e)])"
    using resolve_into_resolved [of c dk new] r Cons.prems(3)
    by (simp add: Map_set_fresh split: option.splits)
  have disj: "fst ` set new' \<inter> cname ` set cs = {}"
    using Cons.prems(2,3) new' by (auto split: option.splits)
  have "fst (snd (route_loop dk cs new' (out @ [l]))) = new' @ List.map_filter (entry dk) cs"
    using Cons.IH [OF _ _ disj] Cons.prems(1,2) by simp
  moreover have "List.map_filter (entry dk) (c # cs) =
      (case resolved dk c of None \<Rightarrow> [] | Some e \<Rightarrow> [(cname c, e)]) @ List.map_filter (entry dk) cs"
    by (simp add: List.map_filter_simps entry_def split: option.splits)
  ultimately show ?case
    using Cons.prems(1) r new'
    by (simp add: container_name_named split: option.splits)
qed

lemma map_filter_entry_all:
  "\<forall>c\<in>set cs. resolved dk c \<noteq> None \<Longrightarrow>
   List.map_filter (entry dk) cs = map (\<lambda>c. (cname c, the (resolved dk c))) cs"
  by (induction cs) (auto simp: List.map_filter_simps entry_def)

lemma updateRoutes_conclude:
  "updateRoutes dk s =
     (case listContainers dk of
        Inl err \<Rightarrow> say (UpdateFailed (message err)) (say Updating s)
      | Inr cs \<Rightarrow> conclude (route_loop dk cs [] []) (say Updating s))"
  by (simp add: updateRoutes_def conclude_def Let_def split: sum.splits prod.splits option.splits)

lemma updateRoutes_named:
  assumes "listContainers dk = Inr cs" and "\<forall>c\<in>set cs. Names c \<noteq> []"
  shows "containerMap (updateRoutes dk s) = fst (snd (route_loop dk cs [] []))"
    and "console (updateRoutes dk s) =
           console s @ [Updating] @ map (report dk) cs
             @ [TotalRoutes (length (containerMap (updateRoutes dk s)))]"
proof -
  obtain e new out where r: "route_loop dk cs [] [] = (e, new, out)"
    by (cases "route_loop dk cs [] []")
  have e: "e = None"
    using route_loop_named [OF assms(2), of dk "[]" "[]"] r by simp
  have out: "out = map (report dk) cs"
    using route_loop_reports [OF assms(2), of dk "[]" "[]"] r by simp
  show "containerMap (updateRoutes dk s) = fst (snd (route_loop dk cs [] []))"
    using assms(1) r e by (simp add: updateRoutes_conclude conclude_def say_def)
  show "console (updateRoutes dk s) =
           console s @ [Updating] @ map (report dk) cs
             @ [TotalRoutes (length (containerMap (updateRoutes dk s)))]"
    using assms(1) r e out by (simp add: updateRoutes_conclude conclude_def say_def)
qed

subsection \<open>Listing failure\<close>

text \<open>
  C2.  When \<open>docker.listContainers\<close> fails, \<open>updateRoutes\<close> leaves \<open>containerMap\<close> as it
  was, so every lookup gives the same result before and after; it only prints the
  failure.  This holds for the call run without interruption and for the suspended call
  resumed with the failure.  The process is not ended: when the failure happens in the
  first pass of \<open>init\<close> (after a successful ping) the program goes on running, with the
  table unchanged.
\<close>

theorem updateRoutes_listing_failure:
  assumes "listContainers dk = Inl err"
  shows "containerMap (updateRoutes dk s) = containerMap s
       \<and> (\<forall>nm. Map_get (containerMap (updateRoutes dk s)) nm = Map_get (containerMap s) nm)
       \<and> console (updateRoutes dk s) = console s @ [Updating, UpdateFailed (message err)]
       \<and> resume dk AwaitList s = (None, say (UpdateFailed (message err)) s)
       \<and> (\<forall>u. ping dk = Inr u \<longrightarrow>
            (\<exists>s'. init dk s = Running s' \<and> containerMap s' = containerMap s))"
  using assms
  by (simp add: updateRoutes_def say_def resume_def init_def setupDockerEventListener_def)

theorem updateRoutes_listing_failure_witness:
  "listContainers failing_docker = Inl (DockerError ''connect ENOENT /var/run/docker.sock'')
   \<and> ping failing_docker = Inr ()
   \<and> Map_get (containerMap (updateRoutes failing_docker nginx_state)) ''nginx'' = Some nginx_route
   \<and> (\<exists>s'. init failing_docker nginx_state = Running s'
            \<and> containerMap s' = containerMap nginx_state)"
proof -
  have l: "listContainers failing_docker = Inl (DockerError ''connect ENOENT /var/run/docker.sock'')"
    by (simp add: failing_docker_def)
  have p: "ping failing_docker = Inr ()"
    by (simp add: failing_docker_def)
  have g: "Map_get (containerMap nginx_state) ''nginx'' = Some nginx_route"
    by (simp add: nginx_state_def nginx_table_def start_state_def Map_get_def)
  from updateRoutes_listing_failure [OF l, of nginx_state] l p g show ?thesis
    by simp
qed

subsection \<open>One failing container\<close>

text \<open>
  C4.  Let the daemon list the containers \<open>ws1 @ w # ws2\<close>, each with a first name, and
  let the metadata fetch or the address resolution fail for \<open>w\<close>.  Then the pass runs to
  its end (its last output is the route count of line 57, after one line per listed
  container, the one for \<open>w\<close> being its diagnostic), and the table it installs is the
  table that would be installed if \<open>w\<close> were not listed at all.  When moreover the names
  are distinct and every other container resolves, the installed table has exactly the
  entries of the other containers, in order, and none for \<open>w\<close>.
\<close>

theorem partial_failure_isolation:
  assumes "listContainers dk = Inr (ws1 @ w # ws2)"
    and "\<forall>c\<in>set (ws1 @ w # ws2). Names c \<noteq> []"
    and "resolved dk w = None"
  shows "containerMap (updateRoutes dk s) =
           containerMap (updateRoutes (dk\<lparr>listContainers := Inr (ws1 @ ws2)\<rparr>) s)
       \<and> console (updateRoutes dk s) =
           console s @ [Updating] @ map (report dk) (ws1 @ w # ws2)
             @ [TotalRoutes (length (containerMap (updateRoutes dk s)))]
       \<and> report dk w = diagnostic dk w
       \<and> (distinct (map cname (ws1 @ w # ws2)) \<and> (\<forall>c\<in>set (ws1 @ ws2). resolved dk c \<noteq> None) \<longrightarrow>
            containerMap (updateRoutes dk s) =
              map (\<lambda>c. (cname c, the (resolved dk c))) (ws1 @ ws2)
          \<and> Map_get (containerMap (updateRoutes dk s)) (cname w) = None
          \<and> length (containerMap (updateRoutes dk s)) = length (ws1 @ w # ws2) - 1)"
proof -
  let ?dk' = "dk\<lparr>listContainers := Inr (ws1 @ ws2)\<rparr>"
  have n1: "\<forall>c\<in>set ws1. Names c \<noteq> []" and nw: "Names w \<noteq> []"
    and n': "\<forall>c\<in>set (ws1 @ ws2). Names c \<noteq> []"
    using assms(2) by auto
  have same: "route_loop ?dk' cs new out = route_loop dk cs new out" for cs new out
    by (rule route_loop_inspect) simp
  have t: "containerMap (updateRoutes dk s) = fst (snd (route_loop dk (ws1 @ w # ws2) [] []))"
    using updateRoutes_named(1) [OF assms(1,2)] .
  have t': "containerMap (updateRoutes ?dk' s) = fst (snd (route_loop dk (ws1 @ ws2) [] []))"
    using updateRoutes_named(1) [of ?dk' "ws1 @ ws2" s] n' same by simp
  have skip: "fst (snd (route_loop dk (ws1 @ w # ws2) [] [])) =
              fst (snd (route_loop dk (ws1 @ ws2) [] []))"
    using route_loop_skip [OF n1 nw assms(3)] .
  have a: "containerMap (updateRoutes dk s) = containerMap (updateRoutes ?dk' s)"
    using t t' skip by simp
  have b: "console (updateRoutes dk s) =
           console s @ [Updating] @ map (report dk) (ws1 @ w # ws2)
             @ [TotalRoutes (length (containerMap (updateRoutes dk s)))]"
    using updateRoutes_named(2) [OF assms(1,2)] .
  have c: "report dk w = diagnostic dk w"
    using assms(3) by (rule report_failed)
  have d: "containerMap (updateRoutes dk s) = map (\<lambda>c. (cname c, the (resolved dk c))) (ws1 @ ws2)
          \<and> Map_get (containerMap (updateRoutes dk s)) (cname w) = None
          \<and> length (containerMap (updateRoutes dk s)) = length (ws1 @ w # ws2) - 1"
    if dist: "distinct (map cname (ws1 @ w # ws2))"
      and ok: "\<forall>c\<in>set (ws1 @ ws2). resolved dk c \<noteq> None"
  proof -
    have dist': "distinct (map cname (ws1 @ ws2))"
      using dist by simp
    have "fst (snd (route_loop dk (ws1 @ ws2) [] [])) = [] @ List.map_filter (entry dk) (ws1 @ ws2)"
      using route_loop_distinct [OF n' dist'] by simp
    then have tab: "containerMap (updateRoutes dk s) =
        map (\<lambda>c. (cname c, the (resolved dk c))) (ws1 @ ws2)"
      using t skip map_filter_entry_all [OF ok] by simp
    have "cname w \<notin> cname ` set (ws1 @ ws2)"
      using dist by auto
    then have "cname w \<notin> fst ` set (containerMap (updateRoutes dk s))"
      unfolding tab by force
    then have "Map_get (containerMap (updateRoutes dk s)) (cname w) = None"
      by (simp add: Map_get_def map_of_eq_None_iff)
    then show ?thesis
      using tab by simp
  qed
  from a b c d show ?thesis by blast
qed


theorem partial_failure_isolation_witness:
  "listContainers three_docker = Inr ([c_web] @ c_db # [c_api])
   \<and> map Names [c_web, c_db, c_api] = [[''/web''], [''/db''], [''/api'']]
   \<and> resolved three_docker c_db = None
   \<and> map cname [c_web, c_db, c_api] = [''web'', ''db'', ''api'']
   \<and> map (resolved three_docker) [c_web, c_api] = [Some web_route, Some api_route]
   \<and> containerMap (updateRoutes three_docker nginx_state) = [(''web'', web_route), (''api'', api_route)]
   \<and> Map_get (containerMap (updateRoutes three_docker nginx_state)) ''db'' = None
   \<and> report three_docker c_db = InspectFailed ''db'' ''no such container''"
proof -
  note defs = three_docker_def c_web_def c_db_def c_api_def inspect3_def web_details_def
    api_details_def cname_def resolved_def resolve_def pick_ip_def pick_port_def truthy_def
    split_first_def web_route_def api_route_def diagnostic_def Let_def
  have h1: "listContainers three_docker = Inr ([c_web] @ c_db # [c_api])"
    by (simp add: three_docker_def)
  have h2: "\<forall>c\<in>set ([c_web] @ c_db # [c_api]). Names c \<noteq> []"
    by (simp add: c_web_def c_db_def c_api_def)
  have h3: "resolved three_docker c_db = None"
    by (simp add: defs)
  have h4: "distinct (map cname ([c_web] @ c_db # [c_api]))"
    by (simp add: defs)
  have h5: "\<forall>c\<in>set ([c_web] @ [c_api]). resolved three_docker c \<noteq> None"
    by (simp add: defs)
  have e1: "(cname c_web, the (resolved three_docker c_web)) = (''web'', web_route)"
    by (simp add: defs)
  have e2: "(cname c_api, the (resolved three_docker c_api)) = (''api'', api_route)"
    by (simp add: defs)
  have e3: "cname c_db = ''db''"
    by (simp add: defs)
  have e4: "diagnostic three_docker c_db = InspectFailed ''db'' ''no such container''"
    by (simp add: defs)
  from partial_failure_isolation [OF h1 h2 h3, of nginx_state] h4 h5
  have "containerMap (updateRoutes three_docker nginx_state) =
          map (\<lambda>c. (cname c, the (resolved three_docker c))) ([c_web] @ [c_api])"
    and "Map_get (containerMap (updateRoutes three_docker nginx_state)) (cname c_db) = None"
    and "report three_docker c_db = diagnostic three_docker c_db"
    by blast+
  moreover have "map Names [c_web, c_db, c_api] = [[''/web''], [''/db''], [''/api'']]"
    by (simp add: c_web_def c_db_def c_api_def)
  moreover have "map cname [c_web, c_db, c_api] = [''web'', ''db'', ''api'']"
    by (simp add: defs)
  moreover have "map (resolved three_docker) [c_web, c_api] = [Some web_route, Some api_route]"
    by (simp add: defs)
  ultimately show ?thesis
    using h1 h3 e1 e2 e3 e4 by simp
qed

subsection \<open>Address and port of one container\<close>

lemma scan_networks_policy:
  "\<not> truthy ip0 \<Longrightarrow>
   (truthy (scan_networks ns ip0) \<longrightarrow>
      first_nonempty (map (\<lambda>(networkName, n). net_IPAddress n) ns) = scan_networks ns ip0)
   \<and> (\<not> truthy (scan_networks ns ip0) \<longrightarrow>
      first_nonempty (map (\<lambda>(networkName, n). net_IPAddress n) ns) = None)"
  by (induction ns ip0 rule: scan_networks.induct) (auto simp: first_nonempty_def)

lemma pick_ip_policy:
  "policy_address d = (if truthy (pick_ip d) then pick_ip d else None)"
proof (cases "truthy (IPAddress d)")
  case True
  then show ?thesis by (simp add: pick_ip_def policy_address_def)
next
  case False
  show ?thesis
  proof (cases "Networks d")
    case None
    with False show ?thesis
      by (simp add: pick_ip_def policy_address_def first_nonempty_def)
  next
    case (Some ns)
    have "pick_ip d = scan_networks ns (IPAddress d)"
      using False Some by (simp add: pick_ip_def)
    moreover have "policy_address d = first_nonempty (map (\<lambda>(networkName, n). net_IPAddress n) ns)"
      using False Some by (simp add: policy_address_def)
    ultimately show ?thesis
      using scan_networks_policy [OF False, of ns] by simp
  qed
qed

lemma first_nonempty_truthy: "first_nonempty as = Some a \<Longrightarrow> a \<noteq> []"
proof -
  assume f: "first_nonempty as = Some a"
  then obtain rest where "filter truthy as = Some a # rest"
    by (auto simp: first_nonempty_def split: list.splits)
  then have "Some a \<in> set (filter truthy as)"
    by simp
  then show "a \<noteq> []"
    by (simp add: truthy_def)
qed

lemma policy_address_truthy: "policy_address d = Some a \<Longrightarrow> a \<noteq> []"
  by (auto simp: policy_address_def truthy_def dest: first_nonempty_truthy split: if_splits)

lemma pick_port_policy: "pick_port d = (if policy_port d = [] then ''80'' else policy_port d)"
  by (simp add: pick_port_def policy_port_def split_first_def Let_def split: option.splits list.splits)

text \<open>
  C5.  For a container whose metadata is available, the address entered is the primary
  address when that is non-empty, otherwise the first non-empty address of the attached
  networks in the order they are enumerated; when there is none, the container gets no
  entry and a warning is printed.  The port entered is the text before the protocol
  suffix of the first declared exposed port, and \<open>80\<close> when no port is declared (or when
  that text is empty).
\<close>

theorem endpoint_resolution_policy:
  "resolve_into nm (Inr d) new =
     (case policy_address d of
        None \<Rightarrow> (new, NoIpWarned nm)
      | Some a \<Rightarrow>
          (Map_set nm \<lparr>name = nm, ip = a, port = pick_port d\<rparr> new,
           RouteLogged nm a (pick_port d)))
   \<and> (\<forall>a. policy_address d = Some a \<longrightarrow> a \<noteq> [])
   \<and> pick_port d = (if policy_port d = [] then ''80'' else policy_port d)
   \<and> (policy_port d \<noteq> [] \<longrightarrow> pick_port d = policy_port d)"
proof -
  have "resolve_into nm (Inr d) new =
     (case policy_address d of
        None \<Rightarrow> (new, NoIpWarned nm)
      | Some a \<Rightarrow>
          (Map_set nm \<lparr>name = nm, ip = a, port = pick_port d\<rparr> new,
           RouteLogged nm a (pick_port d)))"
  proof (cases "truthy (pick_ip d)")
    case True
    then obtain a where a: "pick_ip d = Some a"
      by (cases "pick_ip d") (simp_all add: truthy_def)
    with True pick_ip_policy [of d] have "policy_address d = Some a"
      by simp
    with True a show ?thesis
      by (simp add: resolve_into_def Let_def)
  next
    case False
    with pick_ip_policy [of d] have "policy_address d = None"
      by simp
    with False show ?thesis
      by (simp add: resolve_into_def Let_def)
  qed
  then show ?thesis
    using policy_address_truthy [of d] pick_port_policy [of d] by simp
qed

theorem endpoint_resolution_policy_witness:
  "policy_address api_details = Some ''10.0.0.5''
   \<and> policy_port web_details \<noteq> []
   \<and> resolve_into ''api'' (Inr api_details) [] =
       ([(''api'', \<lparr>name = ''api'', ip = ''10.0.0.5'', port = ''80''\<rparr>)],
        RouteLogged ''api'' ''10.0.0.5'' ''80'')
   \<and> pick_port web_details = ''3000''"
proof -
  have a: "policy_address api_details = Some ''10.0.0.5''"
    by (simp add: policy_address_def first_nonempty_def api_details_def truthy_def)
  have p: "policy_port web_details = ''3000''"
    by (simp add: policy_port_def web_details_def)
  have q: "policy_port api_details = ''80''"
    by (simp add: policy_port_def api_details_def)
  from endpoint_resolution_policy [of "''api''" api_details "[]"]
    endpoint_resolution_policy [of "''web''" web_details "[]"] a p q
  show ?thesis
    by simp
qed

section \<open>The table is only ever replaced whole\<close>

lemma continue_loop_table:
  "containerMap (snd (continue_loop cs new s)) = (if cs = [] then new else containerMap s)"
  by (simp add: continue_loop_def say_def split: list.splits sum.splits)

lemma resume_table:
  "containerMap (snd (resume dk p s)) =
     (case installs dk p of None \<Rightarrow> containerMap s | Some m \<Rightarrow> m)"
proof (cases p)
  case AwaitList
  then show ?thesis
    by (cases "listContainers dk")
      (simp_all add: resume_def installs_def continue_loop_table say_def)
next
  case (AwaitInspect nm cid rest new)
  obtain new' l where r: "resolve_into nm (inspect dk cid) new = (new', l)"
    by (cases "resolve_into nm (inspect dk cid) new")
  show ?thesis
    using AwaitInspect r
    by (simp add: resume_def installs_def continue_loop_table say_def)
qed

lemma resume_installs_ends:
  assumes "installs dk p \<noteq> None"
  shows "fst (resume dk p s) = None"
proof (cases p)
  case AwaitList
  then show ?thesis
    using assms
    by (cases "listContainers dk")
      (simp_all add: resume_def installs_def continue_loop_def split: if_splits)
next
  case (AwaitInspect nm cid rest new)
  obtain new' l where r: "resolve_into nm (inspect dk cid) new = (new', l)"
    by (cases "resolve_into nm (inspect dk cid) new")
  have "rest = []"
    using assms AwaitInspect by (simp add: installs_def split: if_splits)
  then show ?thesis
    using AwaitInspect r by (simp add: resume_def continue_loop_def)
qed

lemma resume_suspended:
  assumes "resume dk p s = (Some p', s')"
  shows "containerMap s' = containerMap s"
proof -
  have "installs dk p = None"
    using resume_installs_ends [of dk p s] assms by (cases "installs dk p") simp_all
  then show ?thesis
    using resume_table [of dk p s] assms by simp
qed

lemma pass_trace_suspended:
  "\<forall>t\<in>set (butlast (pass_trace dks p s)). containerMap t = containerMap s"
proof (induction dks arbitrary: p s)
  case Nil
  show ?case by simp
next
  case (Cons dk dks)
  obtain po s' where r: "resume dk p s = (po, s')"
    by (cases "resume dk p s")
  show ?case
  proof (cases po)
    case None
    then have "pass_trace (dk # dks) p s = [s']"
      using r by simp
    then show ?thesis by simp
  next
    case (Some p')
    then have t: "pass_trace (dk # dks) p s = s' # pass_trace dks p' s'"
      using r by simp
    have eq: "containerMap s' = containerMap s"
      using resume_suspended r Some by simp
    have ih: "\<forall>t\<in>set (butlast (pass_trace dks p' s')). containerMap t = containerMap s'"
      by (rule Cons.IH)
    have "set (butlast (s' # pass_trace dks p' s')) \<subseteq> insert s' (set (butlast (pass_trace dks p' s')))"
      by simp
    then show ?thesis
      unfolding t using ih eq by (metis insert_iff subsetD)
  qed
qed

lemma pass_trace_nonempty: "dks \<noteq> [] \<Longrightarrow> pass_trace dks p s \<noteq> []"
  by (cases dks) (auto split: prod.splits option.splits)


lemma conclude_out:
  "conclude (case r of (e, m, out') \<Rightarrow> (e, m, l # out')) s = conclude r (say l s)"
  by (cases r) (auto simp: conclude_def say_def split: option.splits)


lemma pass_trace_inspect:
  assumes "container_name c = Inr nm" and "length rest < n"
  shows "last (pass_trace (replicate n dk) (AwaitInspect nm (Id_c c) rest new) s) =
         conclude (route_loop dk (c # rest) new []) s"
  using assms
proof (induction rest arbitrary: c nm new s n)
  case Nil
  obtain new' l where r: "resolve_into nm (inspect dk (Id_c c)) new = (new', l)"
    by (cases "resolve_into nm (inspect dk (Id_c c)) new")
  from Nil obtain k where n: "n = Suc k" by (cases n) auto
  show ?case
    using Nil(1) r n
    by (simp add: resume_def continue_loop_def conclude_def say_def)
next
  case (Cons c' rest')
  obtain new' l where r: "resolve_into nm (inspect dk (Id_c c)) new = (new', l)"
    by (cases "resolve_into nm (inspect dk (Id_c c)) new")
  from Cons.prems obtain k where n: "n = Suc k" and k: "length rest' < k" by (cases n) auto
  have big: "route_loop dk (c # c' # rest') new [] =
      (case route_loop dk (c' # rest') new' [] of (e, m, out') \<Rightarrow> (e, m, l # out'))"
    using Cons.prems(1) r route_loop_out [of dk "c' # rest'" new' "[l]"] by simp
  show ?case
  proof (cases "container_name c'")
    case (Inl e)
    then show ?thesis
      using Cons.prems(1) r n
      by (simp add: resume_def continue_loop_def conclude_def say_def)
  next
    case (Inr nm')
    have ne: "pass_trace (replicate k dk) (AwaitInspect nm' (Id_c c') rest' new') (say l s) \<noteq> []"
      using k by (intro pass_trace_nonempty) auto
    have "last (pass_trace (replicate n dk) (AwaitInspect nm (Id_c c) (c' # rest') new) s) =
          last (pass_trace (replicate k dk) (AwaitInspect nm' (Id_c c') rest' new') (say l s))"
      using r n Inr ne by (simp add: resume_def continue_loop_def)
    also have "\<dots> = conclude (route_loop dk (c' # rest') new' []) (say l s)"
      using Cons.IH [OF Inr k] .
    also have "\<dots> = conclude (route_loop dk (c # c' # rest') new []) s"
      unfolding big conclude_out ..
    finally show ?thesis .
  qed
qed

lemma pass_trace_updateRoutes:
  assumes "listContainers dk = Inr cs" and "length cs < n"
  shows "last (pass_trace (replicate n dk) AwaitList (say Updating s)) = updateRoutes dk s"
proof -
  from assms(2) obtain k where n: "n = Suc k" and k: "length cs \<le> k" by (cases n) auto
  show ?thesis
  proof (cases cs)
    case Nil
    then show ?thesis
      using assms(1) n
      by (simp add: updateRoutes_conclude resume_def continue_loop_def conclude_def say_def)
  next
    case (Cons c rest)
    show ?thesis
    proof (cases "container_name c")
      case (Inl e)
      then show ?thesis
        using assms(1) n Cons
        by (simp add: updateRoutes_conclude resume_def continue_loop_def conclude_def say_def)
    next
      case (Inr nm)
      have k': "length rest < k" using k Cons by simp
      have ne: "pass_trace (replicate k dk) (AwaitInspect nm (Id_c c) rest []) (say Updating s) \<noteq> []"
        using k' by (intro pass_trace_nonempty) auto
      have "last (pass_trace (replicate n dk) AwaitList (say Updating s)) =
            last (pass_trace (replicate k dk) (AwaitInspect nm (Id_c c) rest []) (say Updating s))"
        using assms(1) n Cons Inr ne by (simp add: resume_def continue_loop_def)
      also have "\<dots> = conclude (route_loop dk (c # rest) [] []) (say Updating s)"
        using pass_trace_inspect [OF Inr k'] .
      finally show ?thesis
        using assms(1) Cons by (simp add: updateRoutes_conclude)
    qed
  qed
qed


lemma resume_pass_table:
  "containerMap (resume_pass i dk s) =
     (if i < length (passes s)
      then (case installs dk (passes s ! i) of None \<Rightarrow> containerMap s | Some new \<Rightarrow> new)
      else containerMap s)"
proof (cases "i < length (passes s)")
  case False
  then show ?thesis by (simp add: resume_pass_def)
next
  case True
  obtain po s' where r: "resume dk (passes s ! i) s = (po, s')"
    by (cases "resume dk (passes s ! i) s")
  have "containerMap s' =
      (case installs dk (passes s ! i) of None \<Rightarrow> containerMap s | Some new \<Rightarrow> new)"
    using resume_table [of dk "passes s ! i" s] r by simp
  then show ?thesis
    using True r by (cases po) (simp_all add: resume_pass_def)
qed

lemma handlers_keep_table:
  "containerMap (call_updateRoutes s) = containerMap s"
  "containerMap (on_data ch s) = containerMap s"
  "containerMap (on_error s) = containerMap s"
  "containerMap (on_end s) = containerMap s"
  "containerMap (getEvents_callback r s) = containerMap s"
  "containerMap (timer_fires i s) = containerMap s"
  "containerMap (setupDockerEventListener s) = containerMap s"
  by (simp_all add: call_updateRoutes_def on_data_def on_error_def on_end_def
      getEvents_callback_def timer_fires_def setupDockerEventListener_def say_def Let_def
      split: chunk.splits sum.splits)

lemma pass_trace_failed_listing:
  assumes "listContainers dk = Inl err" and "0 < n"
  shows "last (pass_trace (replicate n dk) AwaitList (say Updating s)) = updateRoutes dk s"
proof -
  from assms(2) obtain k where "n = Suc k" by (cases n) auto
  then show ?thesis
    using assms(1) by (simp add: resume_def updateRoutes_conclude)
qed

text \<open>
  C1.  \<open>containerMap\<close> is written in one place only, the assignment of line 56, and
  with the complete local map.  Resuming a suspended \<open>updateRoutes\<close> call leaves
  \<open>containerMap\<close> as it is unless that resumption ends the call at line 56, which
  happens only when no listed container is left to visit; it then holds the whole local
  map.  So at every suspension of a pass the table is the one from before the pass, and a
  pass run against one daemon state ends in the state the uninterrupted \<open>updateRoutes\<close>
  gives.  The same holds for any of several suspended calls that is resumed, and no
  event handler touches the table.  Lookups and the management listings read
  \<open>containerMap\<close> between such steps.
\<close>

theorem table_replaced_whole:
  "containerMap (snd (resume dk p s)) =
     (case installs dk p of None \<Rightarrow> containerMap s | Some new \<Rightarrow> new)
   \<and> (installs dk p \<noteq> None \<longrightarrow> fst (resume dk p s) = None)
   \<and> (\<forall>t\<in>set (butlast (pass_trace dks AwaitList (say Updating s))).
         containerMap t = containerMap s)
   \<and> (0 < n \<and> (\<forall>cs. listContainers dk = Inr cs \<longrightarrow> length cs < n) \<longrightarrow>
         last (pass_trace (replicate n dk) AwaitList (say Updating s)) = updateRoutes dk s)
   \<and> containerMap (resume_pass i dk s) =
        (if i < length (passes s)
         then (case installs dk (passes s ! i) of None \<Rightarrow> containerMap s | Some new \<Rightarrow> new)
         else containerMap s)
   \<and> containerMap (on_data ch s) = containerMap s
   \<and> containerMap (on_error s) = containerMap s
   \<and> containerMap (on_end s) = containerMap s
   \<and> containerMap (getEvents_callback r s) = containerMap s
   \<and> containerMap (timer_fires j s) = containerMap s"
proof -
  have a: "containerMap (snd (resume dk p s)) =
     (case installs dk p of None \<Rightarrow> containerMap s | Some new \<Rightarrow> new)"
    by (rule resume_table)
  have b: "installs dk p \<noteq> None \<longrightarrow> fst (resume dk p s) = None"
    using resume_installs_ends by blast
  have c: "\<forall>t\<in>set (butlast (pass_trace dks AwaitList (say Updating s))).
         containerMap t = containerMap s"
    using pass_trace_suspended [of dks AwaitList "say Updating s"] by (simp add: say_def)
  have d: "last (pass_trace (replicate n dk) AwaitList (say Updating s)) = updateRoutes dk s"
    if "0 < n" and "\<forall>cs. listContainers dk = Inr cs \<longrightarrow> length cs < n"
  proof (cases "listContainers dk")
    case (Inl err)
    then show ?thesis using that(1) by (rule pass_trace_failed_listing)
  next
    case (Inr cs)
    with that(2) have "length cs < n" by simp
    with Inr show ?thesis by (rule pass_trace_updateRoutes)
  qed
  have e: "containerMap (resume_pass i dk s) =
        (if i < length (passes s)
         then (case installs dk (passes s ! i) of None \<Rightarrow> containerMap s | Some new \<Rightarrow> new)
         else containerMap s)"
    by (rule resume_pass_table)
  from a b c d e show ?thesis
    by (simp only: handlers_keep_table simp_thms) blast
qed


theorem table_replaced_whole_witness:
  "installs three_docker (AwaitInspect ''api'' ''id-api'' [] [(''web'', web_route)]) =
     Some [(''web'', web_route), (''api'', api_route)]
   \<and> resume three_docker (AwaitInspect ''api'' ''id-api'' [] [(''web'', web_route)]) nginx_state =
       (None, say (TotalRoutes 2) (say (RouteLogged ''api'' ''10.0.0.5'' ''80'')
          (nginx_state\<lparr>containerMap := [(''web'', web_route), (''api'', api_route)]\<rparr>)))
   \<and> map containerMap
         (pass_trace [three_docker, three_docker, three_docker, three_docker] AwaitList
            (say Updating nginx_state)) =
       [nginx_table, nginx_table, nginx_table, [(''web'', web_route), (''api'', api_route)]]
   \<and> last (pass_trace (replicate 4 three_docker) AwaitList (say Updating nginx_state)) =
       updateRoutes three_docker nginx_state
   \<and> containerMap (resume_pass 0 three_docker
         (nginx_state\<lparr>passes := [AwaitInspect ''db'' ''id-db'' [c_api] [(''web'', web_route)]]\<rparr>)) =
       nginx_table"
proof -
  note defs = three_docker_def c_web_def c_db_def c_api_def inspect3_def web_details_def
    api_details_def pick_ip_def pick_port_def truthy_def split_first_def web_route_def
    api_route_def Let_def resolve_into_def container_name_def continue_loop_def resume_def
    say_def nginx_state_def start_state_def nginx_table_def nginx_route_def
  let ?p = "AwaitInspect ''api'' ''id-api'' [] [(''web'', web_route)]"
  let ?s = "nginx_state\<lparr>passes := [AwaitInspect ''db'' ''id-db'' [c_api] [(''web'', web_route)]]\<rparr>"
  have i: "installs three_docker ?p = Some [(''web'', web_route), (''api'', api_route)]"
    by (simp add: installs_def defs)
  have r: "resume three_docker ?p nginx_state =
       (None, say (TotalRoutes 2) (say (RouteLogged ''api'' ''10.0.0.5'' ''80'')
          (nginx_state\<lparr>containerMap := [(''web'', web_route), (''api'', api_route)]\<rparr>)))"
    by (simp add: defs)
  have t: "map containerMap
         (pass_trace [three_docker, three_docker, three_docker, three_docker] AwaitList
            (say Updating nginx_state)) =
       [nginx_table, nginx_table, nginx_table, [(''web'', web_route), (''api'', api_route)]]"
    by (simp add: defs)
  have h: "0 < (4::nat) \<and> (\<forall>cs. listContainers three_docker = Inr cs \<longrightarrow> length cs < 4)"
    by (auto simp: three_docker_def)
  have j: "installs three_docker (passes ?s ! 0) = None"
    by (simp add: installs_def)
  have k: "containerMap ?s = nginx_table" "0 < length (passes ?s)"
    by (simp_all add: nginx_state_def)
  from table_replaced_whole [of three_docker ?p nginx_state "[]" 4 0]
  have "last (pass_trace (replicate 4 three_docker) AwaitList (say Updating nginx_state)) =
       updateRoutes three_docker nginx_state"
    using h by blast
  moreover from table_replaced_whole [of three_docker ?p ?s "[]" 4 0]
  have "containerMap (resume_pass 0 three_docker ?s) = nginx_table"
    using j k by simp
  ultimately show ?thesis
    using i r t by simp
qed

section \<open>The request path\<close>

subsection \<open>Host header and lookup key\<close>

lemma replace_first_absent:
  "pat \<noteq> [] \<Longrightarrow> \<not> sublist pat h \<Longrightarrow> replace_first pat rep h = h"
proof (induction h)
  case Nil
  then show ?case by simp
next
  case (Cons c cs)
  from Cons.prems(2) have "\<not> prefix pat (c # cs)" and "\<not> sublist pat cs"
    by (simp_all add: sublist_Cons_right)
  with Cons.IH Cons.prems(1) show ?case by simp
qed

text \<open>A pattern whose first character does not occur again in it cannot start inside
  a text that does not contain it and run into a following copy of itself.\<close>

lemma no_overlap:
  assumes d: "d \<notin> set ptl" and pre: "pre \<noteq> []" and ns: "\<not> sublist (d # ptl) pre"
  shows "\<not> prefix (d # ptl) (pre @ (d # ptl) @ post)"
proof
  assume "prefix (d # ptl) (pre @ (d # ptl) @ post)"
  then consider "prefix (d # ptl) pre"
    | us where "d # ptl = pre @ us" and "prefix us ((d # ptl) @ post)"
    using prefix_append [of "d # ptl" pre "(d # ptl) @ post"] by blast
  then show False
  proof cases
    case 1
    then have "sublist (d # ptl) pre" by (rule prefix_imp_sublist)
    with ns show False by simp
  next
    case 2
    from 2(1) pre obtain pre' where pre': "pre = d # pre'" and tl: "ptl = pre' @ us"
      by (cases pre) auto
    show False
    proof (cases us)
      case Nil
      with 2(1) have "pre = d # ptl" by simp
      with ns show False by simp
    next
      case (Cons u us')
      with 2(2) have "u = d" by simp
      with Cons tl have "d \<in> set ptl" by simp
      with d show False by simp
    qed
  qed
qed

lemma replace_first_at:
  assumes d: "d \<notin> set ptl" and ns: "\<not> sublist (d # ptl) pre"
  shows "replace_first (d # ptl) rep (pre @ (d # ptl) @ post) = pre @ rep @ post"
  using ns
proof (induction pre)
  case Nil
  show ?case by simp
next
  case (Cons c cs)
  have np: "\<not> prefix (d # ptl) ((c # cs) @ (d # ptl) @ post)"
    using no_overlap [OF d _ Cons.prems] by simp
  from Cons.prems have "\<not> sublist (d # ptl) cs"
    by (simp add: sublist_Cons_right)
  then have "replace_first (d # ptl) rep (cs @ (d # ptl) @ post) = cs @ rep @ post"
    by (rule Cons.IH)
  with np show ?case
    by (simp del: Cons_prefix_Cons)
qed

lemma containerName_of_at:
  "\<not> sublist ''.localhost'' pre \<Longrightarrow> containerName_of (pre @ ''.localhost'' @ post) = pre @ post"
  unfolding containerName_of_def
  using replace_first_at [of "CHR ''.''" "''localhost''" pre "[]" post] by simp

lemma containerName_of_absent:
  "\<not> sublist ''.localhost'' h \<Longrightarrow> containerName_of h = h"
  unfolding containerName_of_def by (rule replace_first_absent) simp_all

lemma split_first_port:
  "split_first CHR '':'' (h @ CHR '':'' # prt) = split_first CHR '':'' h"
proof (cases "CHR '':'' \<in> set h")
  case True
  then show ?thesis
    unfolding split_first_def by (intro takeWhile_append1 [of "CHR '':''"]) simp_all
next
  case False
  then show ?thesis
    unfolding split_first_def by (induction h) simp_all
qed

lemma split_first_clean: "sep \<notin> set h \<Longrightarrow> split_first sep h = h"
  unfolding split_first_def by (induction h) auto

lemma request_host_port:
  "request_host (Some (h @ CHR '':'' # prt)) = request_host (Some h)"
  by (simp add: request_host_def split_first_port)

lemma route_request_unknown:
  assumes "request_host hostHeader = Some h" and "h \<noteq> []"
    and "containerName_of h \<notin> set (Map_keys m)"
  shows "route_request m hostHeader =
           Reply 502 (NoRouteBody (''No container mapped for hostname: '' @ h)
                        (map (\<lambda>n. n @ ''.localhost'') (Map_keys m)))"
proof -
  have "Map_get m (containerName_of h) = None"
    using assms(3) by (simp add: Map_get_def Map_keys_def map_of_eq_None_iff)
  then show ?thesis
    using assms(1,2) by (simp add: route_request_def truthy_def)
qed

lemma request_host_clean: "CHR '':'' \<notin> set h \<Longrightarrow> request_host (Some h) = Some h"
  by (simp add: request_host_def split_first_clean)

lemma route_request_keyed:
  assumes "request_host hostHeader = Some h" and "h \<noteq> []"
  shows "route_request m hostHeader = lookup_outcome m h (containerName_of h)"
  using assms by (simp add: route_request_def lookup_outcome_def truthy_def)

lemma route_request_no_host:
  assumes "\<not> truthy (request_host hostHeader)"
  shows "route_request m hostHeader = Reply 400 (ErrorBody ''No host header provided'')"
  using assms by (simp add: route_request_def)

lemma route_request_reply:
  assumes "route_request m hostHeader = Reply st b"
  shows "(st = 400 \<and> b = ErrorBody ''No host header provided'')
       \<or> (st = 502 \<and> (\<exists>h. b = NoRouteBody (''No container mapped for hostname: '' @ h)
                                 (map (\<lambda>n. n @ ''.localhost'') (Map_keys m))))"
  using assms
  by (auto simp: route_request_def Let_def split: if_splits option.splits)

text \<open>
  C6.  When the request has a non-empty host \<open>h\<close> (the host header up to its first
  colon) and the name extracted from it is not a key of the table, the request is not
  handed to the proxy, whatever the proxy would do: the response is 502 with the error
  text \<open>No container mapped for hostname: h\<close> and the keys of the table, each followed by
  \<open>.localhost\<close>, in table order.  With an empty table the list is empty.
\<close>

theorem unknown_name_dispatch:
  assumes "request_host hostHeader = Some h" and "h \<noteq> []"
    and "containerName_of h \<notin> set (Map_keys m)"
  shows "route_request m hostHeader =
           Reply 502 (NoRouteBody (''No container mapped for hostname: '' @ h)
                        (map (\<lambda>n. n @ ''.localhost'') (Map_keys m)))
       \<and> proxyApp_request m hostHeader px =
           Sent 502 (NoRouteBody (''No container mapped for hostname: '' @ h)
                       (map (\<lambda>n. n @ ''.localhost'') (Map_keys m)))
       \<and> suffix h (''No container mapped for hostname: '' @ h)
       \<and> proxyApp_request [] hostHeader px =
           Sent 502 (NoRouteBody (''No container mapped for hostname: '' @ h) [])"
proof -
  have a: "route_request m hostHeader =
           Reply 502 (NoRouteBody (''No container mapped for hostname: '' @ h)
                        (map (\<lambda>n. n @ ''.localhost'') (Map_keys m)))"
    using assms by (rule route_request_unknown)
  have "containerName_of h \<notin> set (Map_keys [])"
    by (simp add: Map_keys_def)
  with assms(1,2) have b: "route_request [] hostHeader =
           Reply 502 (NoRouteBody (''No container mapped for hostname: '' @ h)
                        (map (\<lambda>n. n @ ''.localhost'') (Map_keys [])))"
    by (rule route_request_unknown)
  have c: "suffix h (''No container mapped for hostname: '' @ h)"
    by (rule suffix_appendI) simp
  from a b c show ?thesis
    by (simp add: proxyApp_request_def Map_keys_def)
qed

theorem unknown_name_dispatch_witness:
  "request_host (Some ''ghost.localhost:8080'') = Some ''ghost.localhost''
   \<and> containerName_of ''ghost.localhost'' = ''ghost''
   \<and> Map_keys nginx_table = [''nginx'']
   \<and> proxyApp_request nginx_table (Some ''ghost.localhost:8080'') raising_proxy =
       Sent 502 (NoRouteBody ''No container mapped for hostname: ghost.localhost''
                   [''nginx.localhost''])
   \<and> proxyApp_request [] (Some ''ghost.localhost:8080'') raising_proxy =
       Sent 502 (NoRouteBody ''No container mapped for hostname: ghost.localhost'' [])"
proof -
  have h: "request_host (Some ''ghost.localhost:8080'') = Some ''ghost.localhost''"
    by (simp add: request_host_def split_first_def)
  have n: "containerName_of ''ghost.localhost'' = ''ghost''"
    by (simp add: containerName_of_def)
  have k: "Map_keys nginx_table = [''nginx'']"
    by (simp add: Map_keys_def nginx_table_def)
  have "containerName_of ''ghost.localhost'' \<notin> set (Map_keys nginx_table)"
    by (simp add: n k)
  from unknown_name_dispatch [OF h _ this, of raising_proxy] h n k show ?thesis
    by simp
qed

text \<open>
  C7.  The lookup key is derived from the host header by cutting it at its first colon
  and removing \<open>.localhost\<close>, and the dispatch consults the table under that key: a
  request whose host (the header up to its first colon) is \<open>h\<close>, non-empty, is forwarded
  to the entry found under the key derived from \<open>h\<close>, or answered with 502 when there is
  none.  So the host header \<open>name.localhost:port\<close> is handled exactly as
  \<open>name.localhost\<close>, whatever the name, the port and the table; and when the name
  contains neither a colon nor \<open>.localhost\<close>, both are looked up under the name itself.
  A request without a host header (or whose host is empty) is answered with 400 and the
  text \<open>No host header provided\<close>, whatever the table and the proxy.
\<close>

theorem host_normalization:
  "route_request m (Some (nm @ ''.localhost'' @ CHR '':'' # prt)) =
     route_request m (Some (nm @ ''.localhost''))
   \<and> proxyApp_request m (Some (nm @ ''.localhost'' @ CHR '':'' # prt)) px =
       proxyApp_request m (Some (nm @ ''.localhost'')) px
   \<and> (CHR '':'' \<notin> set nm \<and> \<not> sublist ''.localhost'' nm \<longrightarrow>
        request_host (Some (nm @ ''.localhost'' @ CHR '':'' # prt)) = Some (nm @ ''.localhost'')
      \<and> containerName_of (nm @ ''.localhost'') = nm)
   \<and> route_request m None = Reply 400 (ErrorBody ''No host header provided'')
   \<and> proxyApp_request m None px = Sent 400 (ErrorBody ''No host header provided'')
   \<and> request_host (Some (h @ CHR '':'' # prt)) = request_host (Some h)
   \<and> (CHR '':'' \<notin> set h \<longrightarrow> request_host (Some h) = Some h)
   \<and> (request_host hostHeader = Some h \<and> h \<noteq> [] \<longrightarrow>
        route_request m hostHeader = lookup_outcome m h (containerName_of h))
   \<and> (CHR '':'' \<notin> set nm \<and> \<not> sublist ''.localhost'' nm \<longrightarrow>
        route_request m (Some (nm @ ''.localhost'' @ CHR '':'' # prt)) =
          lookup_outcome m (nm @ ''.localhost'') nm
      \<and> route_request m (Some (nm @ ''.localhost'')) =
          lookup_outcome m (nm @ ''.localhost'') nm)
   \<and> (\<not> truthy (request_host hostHeader) \<longrightarrow>
        route_request m hostHeader = Reply 400 (ErrorBody ''No host header provided'')
      \<and> proxyApp_request m hostHeader px = Sent 400 (ErrorBody ''No host header provided''))"
proof -
  have a: "request_host (Some (nm @ ''.localhost'' @ CHR '':'' # prt)) =
           request_host (Some (nm @ ''.localhost''))"
    using request_host_port [of "nm @ ''.localhost''" prt] by simp
  then have b: "route_request m (Some (nm @ ''.localhost'' @ CHR '':'' # prt)) =
     route_request m (Some (nm @ ''.localhost''))"
    by (simp add: route_request_def)
  then have c: "proxyApp_request m (Some (nm @ ''.localhost'' @ CHR '':'' # prt)) px =
       proxyApp_request m (Some (nm @ ''.localhost'')) px"
    by (simp add: proxyApp_request_def)
  have d: "request_host (Some (nm @ ''.localhost'' @ CHR '':'' # prt)) = Some (nm @ ''.localhost'')
      \<and> containerName_of (nm @ ''.localhost'') = nm"
    if "CHR '':'' \<notin> set nm" and "\<not> sublist ''.localhost'' nm"
  proof -
    have "CHR '':'' \<notin> set (nm @ ''.localhost'')"
      using that(1) by simp
    then have "request_host (Some (nm @ ''.localhost'')) = Some (nm @ ''.localhost'')"
      by (rule request_host_clean)
    moreover have "containerName_of (nm @ ''.localhost'') = nm"
      using containerName_of_at [OF that(2), of "[]"] by simp
    ultimately show ?thesis
      using a by simp
  qed
  have e: "route_request m None = Reply 400 (ErrorBody ''No host header provided'')"
    by (simp add: route_request_def request_host_def truthy_def)
  then have f: "proxyApp_request m None px = Sent 400 (ErrorBody ''No host header provided'')"
    by (simp add: proxyApp_request_def)
  have g: "request_host (Some (h @ CHR '':'' # prt)) = request_host (Some h)"
    by (rule request_host_port)
  have i: "request_host (Some h) = Some h" if "CHR '':'' \<notin> set h"
    using that by (rule request_host_clean)
  have j: "route_request m hostHeader = lookup_outcome m h (containerName_of h)"
    if "request_host hostHeader = Some h" and "h \<noteq> []"
    using that by (rule route_request_keyed)
  have k: "route_request m (Some (nm @ ''.localhost'' @ CHR '':'' # prt)) =
          lookup_outcome m (nm @ ''.localhost'') nm
      \<and> route_request m (Some (nm @ ''.localhost'')) =
          lookup_outcome m (nm @ ''.localhost'') nm"
    if col: "CHR '':'' \<notin> set nm" and ns: "\<not> sublist ''.localhost'' nm"
  proof -
    have h: "request_host (Some (nm @ ''.localhost'' @ CHR '':'' # prt)) = Some (nm @ ''.localhost'')"
      and key: "containerName_of (nm @ ''.localhost'') = nm"
      using d [OF col ns] by simp_all
    have ne: "nm @ ''.localhost'' \<noteq> []"
      by simp
    have "route_request m (Some (nm @ ''.localhost'' @ CHR '':'' # prt)) =
          lookup_outcome m (nm @ ''.localhost'') (containerName_of (nm @ ''.localhost''))"
      using h ne by (rule route_request_keyed)
    then show ?thesis
      using key b by simp
  qed
  have l: "route_request m hostHeader = Reply 400 (ErrorBody ''No host header provided'')
      \<and> proxyApp_request m hostHeader px = Sent 400 (ErrorBody ''No host header provided'')"
    if "\<not> truthy (request_host hostHeader)"
    using route_request_no_host [OF that, of m] by (simp add: proxyApp_request_def)
  from b c d e f g i j k l show ?thesis
    by blast
qed

theorem host_normalization_witness:
  "\<not> sublist ''.localhost'' ''nginx''
   \<and> route_request nginx_table (Some ''nginx.localhost:8080'') =
       Forward ''nginx.localhost'' ''http://172.17.0.2:80''
   \<and> route_request nginx_table (Some ''nginx.localhost'') =
       Forward ''nginx.localhost'' ''http://172.17.0.2:80''
   \<and> containerName_of ''nginx.localhost'' = ''nginx''
   \<and> route_request nginx_table (Some ''ghost.localhost:8080'') =
       Reply 502 (NoRouteBody ''No container mapped for hostname: ghost.localhost''
                    [''nginx.localhost''])
   \<and> route_request dotted_table (Some ''nginx.localhost:8080'') =
       Forward ''nginx.localhost'' ''http://172.17.0.2:80''
   \<and> route_request nginx_table (Some '':8080'') =
       Reply 400 (ErrorBody ''No host header provided'')"
proof -
  have s: "\<not> sublist ''.localhost'' ''nginx''" "\<not> sublist ''.localhost'' ''ghost''"
    by (simp_all add: sublist_Cons_right)
  have c: "CHR '':'' \<notin> set ''nginx''" "CHR '':'' \<notin> set ''ghost''"
    by simp_all
  have o1: "lookup_outcome nginx_table ''nginx.localhost'' ''nginx'' =
      Forward ''nginx.localhost'' ''http://172.17.0.2:80''"
    by (simp add: lookup_outcome_def Map_get_def nginx_table_def nginx_route_def)
  have o2: "lookup_outcome nginx_table ''ghost.localhost'' ''ghost'' =
      Reply 502 (NoRouteBody ''No container mapped for hostname: ghost.localhost''
                    [''nginx.localhost''])"
    by (simp add: lookup_outcome_def Map_get_def Map_keys_def nginx_table_def)
  have o3: "lookup_outcome dotted_table ''nginx.localhost'' ''nginx'' =
      Forward ''nginx.localhost'' ''http://172.17.0.2:80''"
    by (simp add: lookup_outcome_def Map_get_def dotted_table_def nginx_route_def)
  have t: "\<not> truthy (request_host (Some '':8080''))"
    by (simp add: request_host_def split_first_def truthy_def)
  note w1 = host_normalization [of nginx_table "''nginx''" "''8080''" raising_proxy "[]" None]
  note w2 = host_normalization [of nginx_table "''ghost''" "''8080''" raising_proxy "[]"
      "Some '':8080''"]
  note w3 = host_normalization [of dotted_table "''nginx''" "''8080''" raising_proxy "[]" None]
  from w1 s c have n1: "route_request nginx_table (Some (''nginx'' @ ''.localhost'' @ CHR '':'' # ''8080'')) =
          lookup_outcome nginx_table (''nginx'' @ ''.localhost'') ''nginx''"
    and n2: "route_request nginx_table (Some (''nginx'' @ ''.localhost'')) =
          lookup_outcome nginx_table (''nginx'' @ ''.localhost'') ''nginx''"
    and n3: "containerName_of (''nginx'' @ ''.localhost'') = ''nginx''"
    by blast+
  from w2 s c have g1: "route_request nginx_table (Some (''ghost'' @ ''.localhost'' @ CHR '':'' # ''8080'')) =
          lookup_outcome nginx_table (''ghost'' @ ''.localhost'') ''ghost''"
    by blast
  from w2 t have g2: "route_request nginx_table (Some '':8080'') =
      Reply 400 (ErrorBody ''No host header provided'')"
    by blast
  from w3 s c have d1: "route_request dotted_table (Some (''nginx'' @ ''.localhost'' @ CHR '':'' # ''8080'')) =
          lookup_outcome dotted_table (''nginx'' @ ''.localhost'') ''nginx''"
    by blast
  from n1 n2 n3 g1 g2 d1 o1 o2 o3 s show ?thesis
    by simp
qed

lemma route_request_at:
  assumes c1: "CHR '':'' \<notin> set pre" and c2: "CHR '':'' \<notin> set post"
    and ns: "\<not> sublist ''.localhost'' pre"
  shows "route_request m (Some (pre @ ''.localhost'' @ post)) =
          lookup_outcome m (pre @ ''.localhost'' @ post) (pre @ post)"
    and "route_request m (Some (pre @ ''.localhost'' @ post @ CHR '':'' # prt)) =
          lookup_outcome m (pre @ ''.localhost'' @ post) (pre @ post)"
proof -
  let ?h = "pre @ ''.localhost'' @ post"
  have "CHR '':'' \<notin> set ?h"
    using c1 c2 by simp
  then have h1: "request_host (Some ?h) = Some ?h"
    by (rule request_host_clean)
  have "request_host (Some (?h @ CHR '':'' # prt)) = request_host (Some ?h)"
    by (rule request_host_port)
  then have h2: "request_host (Some (pre @ ''.localhost'' @ post @ CHR '':'' # prt)) = Some ?h"
    using h1 by simp
  have ne: "?h \<noteq> []"
    by simp
  have key: "containerName_of ?h = pre @ post"
    using ns by (rule containerName_of_at)
  have "route_request m (Some ?h) = lookup_outcome m ?h (containerName_of ?h)"
    using h1 ne by (rule route_request_keyed)
  then show "route_request m (Some ?h) = lookup_outcome m ?h (pre @ post)"
    using key by simp
  have "route_request m (Some (pre @ ''.localhost'' @ post @ CHR '':'' # prt)) =
      lookup_outcome m ?h (containerName_of ?h)"
    using h2 ne by (rule route_request_keyed)
  then show "route_request m (Some (pre @ ''.localhost'' @ post @ CHR '':'' # prt)) =
      lookup_outcome m ?h (pre @ post)"
    using key by simp
qed

text \<open>
  C10.  Only the first occurrence of \<open>.localhost\<close> is removed from the host (the host
  header up to its first colon), wherever it stands, and the table is consulted under
  what remains.  A host without \<open>.localhost\<close> is its own lookup key, so a bare name
  (non-empty, without colon), with or without a port, is looked up under the name, and
  forwarded to the same target or not at all, as the name followed by \<open>.localhost\<close>.  A
  host \<open>pre.localhost-post\<close>, where \<open>.localhost\<close> does not occur in \<open>pre\<close>, is looked up
  under \<open>pre @ post\<close>, with or without a port.
\<close>

theorem first_occurrence_removed:
  "(\<not> sublist ''.localhost'' h \<longrightarrow> containerName_of h = h)
   \<and> (\<not> sublist ''.localhost'' pre \<longrightarrow>
        containerName_of (pre @ ''.localhost'' @ post) = pre @ post)
   \<and> (nm \<noteq> [] \<and> CHR '':'' \<notin> set nm \<and> \<not> sublist ''.localhost'' nm \<longrightarrow>
        containerName_of nm = nm
      \<and> containerName_of (nm @ ''.localhost'') = nm
      \<and> forwarded_to (route_request m (Some nm)) =
          forwarded_to (route_request m (Some (nm @ ''.localhost'')))
      \<and> forwarded_to (route_request m (Some nm)) =
          map_option (\<lambda>e. ''http://'' @ ip e @ '':'' @ port e) (Map_get m nm))
   \<and> (request_host hostHeader = Some h \<and> h \<noteq> [] \<longrightarrow>
        route_request m hostHeader = lookup_outcome m h (containerName_of h))
   \<and> (CHR '':'' \<notin> set pre \<and> CHR '':'' \<notin> set post \<and> \<not> sublist ''.localhost'' pre \<longrightarrow>
        route_request m (Some (pre @ ''.localhost'' @ post)) =
          lookup_outcome m (pre @ ''.localhost'' @ post) (pre @ post)
      \<and> route_request m (Some (pre @ ''.localhost'' @ post @ CHR '':'' # prt)) =
          lookup_outcome m (pre @ ''.localhost'' @ post) (pre @ post))
   \<and> (nm \<noteq> [] \<and> CHR '':'' \<notin> set nm \<and> \<not> sublist ''.localhost'' nm \<longrightarrow>
        route_request m (Some nm) = lookup_outcome m nm nm
      \<and> route_request m (Some (nm @ CHR '':'' # prt)) = lookup_outcome m nm nm
      \<and> route_request m (Some (nm @ ''.localhost'')) = lookup_outcome m (nm @ ''.localhost'') nm)"
proof -
  have a: "containerName_of h = h" if "\<not> sublist ''.localhost'' h"
    using that by (rule containerName_of_absent)
  have b: "containerName_of (pre @ ''.localhost'' @ post) = pre @ post"
    if "\<not> sublist ''.localhost'' pre"
    using that by (rule containerName_of_at)
  have d: "route_request m hostHeader = lookup_outcome m h (containerName_of h)"
    if "request_host hostHeader = Some h" and "h \<noteq> []"
    using that by (rule route_request_keyed)
  have e: "route_request m (Some (pre @ ''.localhost'' @ post)) =
          lookup_outcome m (pre @ ''.localhost'' @ post) (pre @ post)
      \<and> route_request m (Some (pre @ ''.localhost'' @ post @ CHR '':'' # prt)) =
          lookup_outcome m (pre @ ''.localhost'' @ post) (pre @ post)"
    if "CHR '':'' \<notin> set pre" and "CHR '':'' \<notin> set post"
      and "\<not> sublist ''.localhost'' pre"
    using route_request_at [OF that] by simp
  have f: "route_request m (Some nm) = lookup_outcome m nm nm
      \<and> route_request m (Some (nm @ CHR '':'' # prt)) = lookup_outcome m nm nm
      \<and> route_request m (Some (nm @ ''.localhost'')) = lookup_outcome m (nm @ ''.localhost'') nm"
    if ne: "nm \<noteq> []" and col: "CHR '':'' \<notin> set nm" and ns: "\<not> sublist ''.localhost'' nm"
  proof -
    have k1: "containerName_of nm = nm"
      using ns by (rule containerName_of_absent)
    have h1: "request_host (Some nm) = Some nm"
      using col by (rule request_host_clean)
    have h2: "request_host (Some (nm @ CHR '':'' # prt)) = Some nm"
      using request_host_port [of nm prt] h1 by simp
    have r1: "route_request m (Some nm) = lookup_outcome m nm (containerName_of nm)"
      using h1 ne by (rule route_request_keyed)
    have r2: "route_request m (Some (nm @ CHR '':'' # prt)) = lookup_outcome m nm (containerName_of nm)"
      using h2 ne by (rule route_request_keyed)
    have r3: "route_request m (Some (nm @ ''.localhost'')) = lookup_outcome m (nm @ ''.localhost'') nm"
      using route_request_at(1) [of nm "[]" m] col ns by simp
    from r1 r2 r3 k1 show ?thesis by simp
  qed
  have c: "containerName_of nm = nm
      \<and> containerName_of (nm @ ''.localhost'') = nm
      \<and> forwarded_to (route_request m (Some nm)) =
          forwarded_to (route_request m (Some (nm @ ''.localhost'')))
      \<and> forwarded_to (route_request m (Some nm)) =
          map_option (\<lambda>e. ''http://'' @ ip e @ '':'' @ port e) (Map_get m nm)"
    if ne: "nm \<noteq> []" and col: "CHR '':'' \<notin> set nm" and ns: "\<not> sublist ''.localhost'' nm"
  proof -
    have k1: "containerName_of nm = nm"
      using ns by (rule containerName_of_absent)
    have k2: "containerName_of (nm @ ''.localhost'') = nm"
      using containerName_of_at [OF ns, of "[]"] by simp
    have r1: "route_request m (Some nm) = lookup_outcome m nm nm"
      and r3: "route_request m (Some (nm @ ''.localhost'')) = lookup_outcome m (nm @ ''.localhost'') nm"
      using f [OF ne col ns] by simp_all
    have f1: "forwarded_to (route_request m (Some nm)) =
          map_option (\<lambda>e. ''http://'' @ ip e @ '':'' @ port e) (Map_get m nm)"
      unfolding r1 by (cases "Map_get m nm") (simp_all add: lookup_outcome_def)
    have f2: "forwarded_to (route_request m (Some (nm @ ''.localhost''))) =
          map_option (\<lambda>e. ''http://'' @ ip e @ '':'' @ port e) (Map_get m nm)"
      unfolding r3 by (cases "Map_get m nm") (simp_all add: lookup_outcome_def)
    from k1 k2 f1 f2 show ?thesis by simp
  qed
  from a b c d e f show ?thesis by blast
qed

theorem first_occurrence_removed_witness:
  "\<not> sublist ''.localhost'' ''nginx''
   \<and> containerName_of ''nginx'' = ''nginx''
   \<and> containerName_of ''nginx.localhost.example.com'' = ''nginx.example.com''
   \<and> forwarded_to (route_request nginx_table (Some ''nginx'')) = Some ''http://172.17.0.2:80''
   \<and> forwarded_to (route_request nginx_table (Some ''nginx.localhost'')) =
       Some ''http://172.17.0.2:80''
   \<and> route_request dotted_table (Some ''nginx.localhost.example.com'') =
       Forward ''nginx.localhost.example.com'' ''http://172.17.0.9:8000''
   \<and> route_request dotted_table (Some ''nginx.localhost.example.com:8080'') =
       Forward ''nginx.localhost.example.com'' ''http://172.17.0.9:8000''
   \<and> route_request dotted_table (Some ''nginx:8080'') = Forward ''nginx'' ''http://172.17.0.2:80''
   \<and> route_request nginx_table (Some ''nginx.localhost.example.com'') =
       Reply 502 (NoRouteBody ''No container mapped for hostname: nginx.localhost.example.com''
                    [''nginx.localhost''])"
proof -
  have s: "\<not> sublist ''.localhost'' ''nginx''"
    by (simp add: sublist_Cons_right)
  have c: "''nginx'' \<noteq> [] \<and> CHR '':'' \<notin> set ''nginx''" "CHR '':'' \<notin> set ''.example.com''"
    by simp_all
  have g: "Map_get nginx_table ''nginx'' = Some nginx_route"
    by (simp add: Map_get_def nginx_table_def)
  have t: "''http://'' @ ip nginx_route @ '':'' @ port nginx_route = ''http://172.17.0.2:80''"
    by (simp add: nginx_route_def)
  have o1: "lookup_outcome dotted_table ''nginx.localhost.example.com'' ''nginx.example.com'' =
      Forward ''nginx.localhost.example.com'' ''http://172.17.0.9:8000''"
    by (simp add: lookup_outcome_def Map_get_def dotted_table_def dotted_route_def)
  have o2: "lookup_outcome dotted_table ''nginx'' ''nginx'' = Forward ''nginx'' ''http://172.17.0.2:80''"
    by (simp add: lookup_outcome_def Map_get_def dotted_table_def nginx_route_def)
  have o3: "lookup_outcome nginx_table ''nginx.localhost.example.com'' ''nginx.example.com'' =
      Reply 502 (NoRouteBody ''No container mapped for hostname: nginx.localhost.example.com''
                    [''nginx.localhost''])"
    by (simp add: lookup_outcome_def Map_get_def Map_keys_def nginx_table_def)
  note w = first_occurrence_removed [of "''nginx''" "''nginx''" "''.example.com''" "''nginx''"
      nginx_table None "''8080''"]
  note v = first_occurrence_removed [of "''nginx''" "''nginx''" "''.example.com''" "''nginx''"
      dotted_table None "''8080''"]
  from w s have k: "containerName_of ''nginx'' = ''nginx''"
    by blast
  from w s have a: "containerName_of (''nginx'' @ ''.localhost'' @ ''.example.com'') =
      ''nginx'' @ ''.example.com''"
    by blast
  from w s c have f1: "forwarded_to (route_request nginx_table (Some ''nginx'')) =
      forwarded_to (route_request nginx_table (Some (''nginx'' @ ''.localhost'')))"
    and f2: "forwarded_to (route_request nginx_table (Some ''nginx'')) =
      map_option (\<lambda>e. ''http://'' @ ip e @ '':'' @ port e) (Map_get nginx_table ''nginx'')"
    by blast+
  from f2 g t have f3: "forwarded_to (route_request nginx_table (Some ''nginx'')) =
      Some ''http://172.17.0.2:80''"
    by simp
  from f1 [symmetric] f3 have f4: "forwarded_to (route_request nginx_table (Some ''nginx.localhost'')) =
      Some ''http://172.17.0.2:80''"
    by simp
  from v s c have d1: "route_request dotted_table (Some (''nginx'' @ ''.localhost'' @ ''.example.com'')) =
      lookup_outcome dotted_table (''nginx'' @ ''.localhost'' @ ''.example.com'')
        (''nginx'' @ ''.example.com'')"
    and d2: "route_request dotted_table
        (Some (''nginx'' @ ''.localhost'' @ ''.example.com'' @ CHR '':'' # ''8080'')) =
      lookup_outcome dotted_table (''nginx'' @ ''.localhost'' @ ''.example.com'')
        (''nginx'' @ ''.example.com'')"
    and d3: "route_request dotted_table (Some (''nginx'' @ CHR '':'' # ''8080'')) =
      lookup_outcome dotted_table ''nginx'' ''nginx''"
    by blast+
  from w s c have d4: "route_request nginx_table (Some (''nginx'' @ ''.localhost'' @ ''.example.com'')) =
      lookup_outcome nginx_table (''nginx'' @ ''.localhost'' @ ''.example.com'')
        (''nginx'' @ ''.example.com'')"
    by blast
  from s k a f3 f4 d1 d2 d3 d4 o1 o2 o3 show ?thesis
    by simp
qed

subsection \<open>Failures while forwarding\<close>

lemma proxyApp_request_replied:
  "route_request m hostHeader = Reply st b \<Longrightarrow> proxyApp_request m hostHeader px = Sent st b"
  by (simp add: proxyApp_request_def)

lemma proxyApp_request_forwarded:
  "route_request m hostHeader = Forward h target \<Longrightarrow>
   proxyApp_request m hostHeader px =
     (case px target of
        Upstream st b \<Rightarrow> Relayed st b
      | ProxyError msg headersSent \<Rightarrow>
          if headersSent then Unfinished
          else Sent 502 (ProxyErrorBody ''Proxy error'' target msg)
      | Raised err \<Rightarrow> Sent 500 (ErrorBody ''Internal server error''))"
  by (simp add: proxyApp_request_def errorHandler_def split: proxied.splits)

lemma sent_proxy_error_iff:
  "proxyApp_request m hostHeader px = Sent 502 (ProxyErrorBody e t mg) \<longleftrightarrow>
     e = ''Proxy error'' \<and> (\<exists>h. route_request m hostHeader = Forward h t)
     \<and> px t = ProxyError mg False"
proof (cases "route_request m hostHeader")
  case (Reply st b)
  then show ?thesis
    using route_request_reply [OF Reply] by (auto simp: proxyApp_request_replied)
next
  case (Forward h target)
  then show ?thesis
    by (cases "px target") (auto simp: proxyApp_request_forwarded)
qed

lemma sent_502_cases:
  assumes "proxyApp_request m hostHeader px = Sent 502 b"
  shows "route_request m hostHeader = Reply 502 b
       \<or> (\<exists>h t mg. route_request m hostHeader = Forward h t \<and> px t = ProxyError mg False
             \<and> b = ProxyErrorBody ''Proxy error'' t mg)"
proof (cases "route_request m hostHeader")
  case (Reply st b')
  then show ?thesis
    using assms by (simp add: proxyApp_request_replied)
next
  case (Forward h target)
  then show ?thesis
    using assms by (cases "px target") (auto simp: proxyApp_request_forwarded split: if_splits)
qed

lemma sent_500_iff:
  "proxyApp_request m hostHeader px = Sent 500 b \<longleftrightarrow>
     b = ErrorBody ''Internal server error''
     \<and> (\<exists>h t err. route_request m hostHeader = Forward h t \<and> px t = Raised err)"
proof (cases "route_request m hostHeader")
  case (Reply st b')
  then show ?thesis
    using route_request_reply [OF Reply] by (auto simp: proxyApp_request_replied)
next
  case (Forward h target)
  then show ?thesis
    by (cases "px target") (auto simp: proxyApp_request_forwarded)
qed

text \<open>
  C8.  An exception that reaches Express while a request is being forwarded is answered
  by the error handler registered on \<open>proxyApp\<close>: status 500 with the body
  \<open>{error: "Internal server error"}\<close>, for every error; and a 500 is sent by the program
  in no other case.  A failure that the proxy reports to its \<open>onError\<close> callback before
  the response headers are sent is answered with 502 and the body
  \<open>{error: "Proxy error", target, message}\<close>, and that response is given to such
  failures only: after the headers are sent nothing more is written, and the one other
  502 of the program is the answer to an unknown name.
\<close>

theorem uncaught_failure_conversion:
  "(route_request m hostHeader = Forward h target \<and> px target = Raised err \<longrightarrow>
      proxyApp_request m hostHeader px = Sent 500 (ErrorBody ''Internal server error''))
   \<and> errorHandler err = Sent 500 (ErrorBody ''Internal server error'')
   \<and> (route_request m hostHeader = Forward h target \<and> px target = ProxyError msg False \<longrightarrow>
      proxyApp_request m hostHeader px = Sent 502 (ProxyErrorBody ''Proxy error'' target msg))
   \<and> (route_request m hostHeader = Forward h target \<and> px target = ProxyError msg True \<longrightarrow>
      proxyApp_request m hostHeader px = Unfinished)
   \<and> (proxyApp_request m hostHeader px = Sent 502 (ProxyErrorBody e t mg) \<longleftrightarrow>
        e = ''Proxy error'' \<and> (\<exists>h'. route_request m hostHeader = Forward h' t)
        \<and> px t = ProxyError mg False)
   \<and> (proxyApp_request m hostHeader px = Sent 502 b \<longrightarrow>
        route_request m hostHeader = Reply 502 b
      \<or> (\<exists>h' t' mg'. route_request m hostHeader = Forward h' t' \<and> px t' = ProxyError mg' False
            \<and> b = ProxyErrorBody ''Proxy error'' t' mg'))
   \<and> (proxyApp_request m hostHeader px = Sent 500 b \<longleftrightarrow>
        b = ErrorBody ''Internal server error''
        \<and> (\<exists>h' t' err'. route_request m hostHeader = Forward h' t' \<and> px t' = Raised err'))"
proof -
  have a: "proxyApp_request m hostHeader px = Sent 500 (ErrorBody ''Internal server error'')"
    if "route_request m hostHeader = Forward h target" and "px target = Raised err"
    using that by (simp add: proxyApp_request_forwarded)
  have b: "errorHandler err = Sent 500 (ErrorBody ''Internal server error'')"
    by (simp add: errorHandler_def)
  have c: "proxyApp_request m hostHeader px = Sent 502 (ProxyErrorBody ''Proxy error'' target msg)"
    if "route_request m hostHeader = Forward h target" and "px target = ProxyError msg False"
    using that by (simp add: proxyApp_request_forwarded)
  have d: "proxyApp_request m hostHeader px = Unfinished"
    if "route_request m hostHeader = Forward h target" and "px target = ProxyError msg True"
    using that by (simp add: proxyApp_request_forwarded)
  note e = sent_proxy_error_iff [of m hostHeader px e t mg]
  have f: "route_request m hostHeader = Reply 502 b
      \<or> (\<exists>h' t' mg'. route_request m hostHeader = Forward h' t' \<and> px t' = ProxyError mg' False
            \<and> b = ProxyErrorBody ''Proxy error'' t' mg')"
    if "proxyApp_request m hostHeader px = Sent 502 b"
    using that by (rule sent_502_cases)
  note g = sent_500_iff [of m hostHeader px b]
  from a b c d e f g show ?thesis
    by blast
qed

theorem uncaught_failure_conversion_witness:
  "route_request nginx_table (Some ''nginx.localhost'') =
     Forward ''nginx.localhost'' ''http://172.17.0.2:80''
   \<and> raising_proxy ''http://172.17.0.2:80'' = Raised (TypeError ''socket hang up'')
   \<and> proxyApp_request nginx_table (Some ''nginx.localhost'') raising_proxy =
       Sent 500 (ErrorBody ''Internal server error'')
   \<and> proxyApp_request nginx_table (Some ''nginx.localhost'') refused_proxy =
       Sent 502 (ProxyErrorBody ''Proxy error'' ''http://172.17.0.2:80'' ''connect ECONNREFUSED'')
   \<and> proxyApp_request nginx_table (Some ''nginx.localhost'') reset_proxy = Unfinished
   \<and> proxyApp_request nginx_table (Some ''nginx.localhost'') reset_proxy \<noteq>
       Sent 502 (ProxyErrorBody ''Proxy error'' ''http://172.17.0.2:80'' ''read ECONNRESET'')"
proof -
  have r: "route_request nginx_table (Some ''nginx.localhost'') =
       Forward ''nginx.localhost'' ''http://172.17.0.2:80''"
    by (simp add: route_request_def request_host_def split_first_def truthy_def
        containerName_of_def Map_get_def nginx_table_def nginx_route_def)
  have p: "raising_proxy ''http://172.17.0.2:80'' = Raised (TypeError ''socket hang up'')"
    by (simp add: raising_proxy_def)
  have q: "refused_proxy ''http://172.17.0.2:80'' = ProxyError ''connect ECONNREFUSED'' False"
    by (simp add: refused_proxy_def)
  have u: "reset_proxy ''http://172.17.0.2:80'' = ProxyError ''read ECONNRESET'' True"
    by (simp add: reset_proxy_def)
  note w1 = uncaught_failure_conversion [of nginx_table "Some ''nginx.localhost''" "''nginx.localhost''"
      "''http://172.17.0.2:80''" raising_proxy "TypeError ''socket hang up''"]
  note w2 = uncaught_failure_conversion [of nginx_table "Some ''nginx.localhost''" "''nginx.localhost''"
      "''http://172.17.0.2:80''" refused_proxy _ "''connect ECONNREFUSED''"]
  note w3 = uncaught_failure_conversion [of nginx_table "Some ''nginx.localhost''" "''nginx.localhost''"
      "''http://172.17.0.2:80''" reset_proxy _ "''read ECONNRESET''" "''Proxy error''"
      "''http://172.17.0.2:80''" "''read ECONNRESET''"]
  from w1 r p have a: "proxyApp_request nginx_table (Some ''nginx.localhost'') raising_proxy =
       Sent 500 (ErrorBody ''Internal server error'')"
    by blast
  from w2 r q have b: "proxyApp_request nginx_table (Some ''nginx.localhost'') refused_proxy =
       Sent 502 (ProxyErrorBody ''Proxy error'' ''http://172.17.0.2:80'' ''connect ECONNREFUSED'')"
    by blast
  from w3 r u have c: "proxyApp_request nginx_table (Some ''nginx.localhost'') reset_proxy = Unfinished"
    by blast
  from w3 u have d: "proxyApp_request nginx_table (Some ''nginx.localhost'') reset_proxy \<noteq>
       Sent 502 (ProxyErrorBody ''Proxy error'' ''http://172.17.0.2:80'' ''read ECONNRESET'')"
    by simp
  from r p a b c d show ?thesis
    by simp
qed

text \<open>That such a failure is answered with a 502 does not hold: for the request
  \<open>nginx.localhost\<close> against the table with the one route \<open>nginx\<close>, when the proxy
  raises, the status is 500.\<close>

theorem uncaught_failure_status_counterexample:
  "status_of (proxyApp_request nginx_table (Some ''nginx.localhost'') raising_proxy) = Some 500
   \<and> status_of (proxyApp_request nginx_table (Some ''nginx.localhost'') raising_proxy) \<noteq> Some 502"
  by (simp add: proxyApp_request_def route_request_def request_host_def split_first_def
      truthy_def containerName_of_def Map_get_def nginx_table_def nginx_route_def
      raising_proxy_def errorHandler_def)

section \<open>The event listener\<close>

subsection \<open>Events and passes\<close>

lemma on_data_lifecycle:
  "lifecycle ch \<Longrightarrow> passes (on_data ch s) = passes s @ [AwaitList]"
  by (cases ch) (simp_all add: lifecycle_def on_data_def call_updateRoutes_def say_def)

lemma on_data_other:
  "\<not> lifecycle ch \<Longrightarrow> passes (on_data ch s) = passes s"
  by (cases ch) (auto simp: lifecycle_def on_data_def say_def)

lemma on_data_table: "containerMap (on_data ch s) = containerMap s"
  by (cases ch) (simp_all add: on_data_def call_updateRoutes_def say_def)

lemma deliver_lifecycle:
  "\<forall>ch\<in>set chs. lifecycle ch \<Longrightarrow>
   passes (deliver chs s) = passes s @ replicate (length chs) AwaitList"
proof (induction chs arbitrary: s)
  case Nil
  show ?case by (simp add: deliver_def)
next
  case (Cons ch chs)
  have "passes (deliver (ch # chs) s) = passes (deliver chs (on_data ch s))"
    by (simp add: deliver_def)
  also have "\<dots> = passes (on_data ch s) @ replicate (length chs) AwaitList"
    using Cons.IH [of "on_data ch s"] Cons.prems by simp
  also have "\<dots> = passes s @ replicate (length (ch # chs)) AwaitList"
    using Cons.prems by (simp add: on_data_lifecycle)
  finally show ?case .
qed

lemma deliver_table: "containerMap (deliver chs s) = containerMap s"
proof (induction chs arbitrary: s)
  case Nil
  show ?case by (simp add: deliver_def)
next
  case (Cons ch chs)
  have "containerMap (deliver (ch # chs) s) = containerMap (deliver chs (on_data ch s))"
    by (simp add: deliver_def)
  then show ?case
    using Cons.IH [of "on_data ch s"] by (simp add: on_data_table)
qed

text \<open>
  C3, as the program has it.  There is no mutual exclusion and no coalescing: each
  chunk of type \<open>container\<close> with action \<open>start\<close>, \<open>stop\<close> or \<open>die\<close> calls \<open>updateRoutes\<close>
  at once, whatever calls are still suspended.  A burst of N such chunks adds N
  suspended passes to those already in progress; other chunks add none.  The table is
  not touched by the handling of the chunks themselves.
\<close>

theorem every_event_starts_a_pass:
  assumes "\<forall>ch\<in>set chs. lifecycle ch"
  shows "passes (deliver chs s) = passes s @ replicate (length chs) AwaitList
       \<and> length (passes (deliver chs s)) = length (passes s) + length chs
       \<and> containerMap (deliver chs s) = containerMap s
       \<and> (\<not> lifecycle ch \<longrightarrow> passes (on_data ch s) = passes s)"
  using deliver_lifecycle [OF assms, of s] deliver_table [of chs s] on_data_other [of ch s]
  by simp

theorem every_event_starts_a_pass_witness:
  "map lifecycle three_events = [True, True, True]
   \<and> passes busy_state = [AwaitList]
   \<and> passes (deliver three_events busy_state) = [AwaitList, AwaitList, AwaitList, AwaitList]
   \<and> passes (on_data (Event ''network'' ''connect'') busy_state) = [AwaitList]"
proof -
  have l: "map lifecycle three_events = [True, True, True]"
    by (simp add: three_events_def lifecycle_def)
  then have a: "\<forall>ch\<in>set three_events. lifecycle ch"
    by (simp add: three_events_def lifecycle_def)
  have b: "passes busy_state = [AwaitList]"
    by (simp add: busy_state_def call_updateRoutes_def start_state_def say_def)
  have c: "\<not> lifecycle (Event ''network'' ''connect'')"
    by (simp add: lifecycle_def)
  have n: "length three_events = Suc (Suc (Suc 0))"
    by (simp add: three_events_def)
  from every_event_starts_a_pass [OF a, of busy_state "Event ''network'' ''connect''"] l b c n
  show ?thesis
    by simp
qed

text \<open>That events arriving during a pass start at most one more pass does not hold:
  with one pass in progress, three lifecycle chunks leave four passes in progress.\<close>

theorem pass_coalescing_counterexample:
  "length (passes busy_state) = 1
   \<and> length (passes (deliver three_events busy_state)) = 4
   \<and> \<not> length (passes (deliver three_events busy_state)) \<le> length (passes busy_state) + 1"
  by (simp add: busy_state_def three_events_def deliver_def on_data_def call_updateRoutes_def
      start_state_def say_def)

subsection \<open>Reconnecting\<close>






end
